theory Spec2Isabelle
  imports Complex_Main "HOL-Library.Word" "HOL-Library.Multiset"
begin

unbundle bit_operations_syntax

section \<open>JavaScript numbers\<close>

text \<open>
  A JavaScript number is modelled as an exact rational or \<open>NaN\<close>. Rounding of IEEE
  doubles and the two infinities are outside the model; the one place of the code where
  an infinity could arise (a chunk diameter of zero) is written out in \<open>trim\<close>.
  \<open>undefined\<close> coordinates turn into \<open>NaN\<close> as soon as they are multiplied by the
  scale, and every arithmetic operation and every comparison follows the JavaScript rule
  for \<open>NaN\<close>: arithmetic yields \<open>NaN\<close>, \<open><\<close> and \<open>===\<close> are false.
\<close>

datatype jsnum = NaN | Num rat

fun jadd :: "jsnum \<Rightarrow> jsnum \<Rightarrow> jsnum" where
  "jadd (Num a) (Num b) = Num (a + b)"
| "jadd _ _ = NaN"

fun jsub :: "jsnum \<Rightarrow> jsnum \<Rightarrow> jsnum" where
  "jsub (Num a) (Num b) = Num (a - b)"
| "jsub _ _ = NaN"

fun jabs :: "jsnum \<Rightarrow> jsnum" where
  "jabs (Num a) = Num \<bar>a\<bar>"
| "jabs NaN = NaN"

fun jless :: "jsnum \<Rightarrow> jsnum \<Rightarrow> bool" where
  "jless (Num a) (Num b) = (a < b)"
| "jless _ _ = False"

text \<open>Strict equality \<open>===\<close> on numbers: \<open>NaN\<close> differs from everything, itself included.\<close>

fun jseq :: "jsnum \<Rightarrow> jsnum \<Rightarrow> bool" where
  "jseq (Num a) (Num b) = (a = b)"
| "jseq _ _ = False"

text \<open>
  Reading an array of numbers at an index: out of range the result is \<open>undefined\<close>,
  which every arithmetic use below turns into \<open>NaN\<close>.
\<close>

definition elemAt :: "jsnum list \<Rightarrow> nat \<Rightarrow> jsnum" where
  "elemAt xs i = (if i < length xs then xs ! i else NaN)"

section \<open>Grid indexer: \<open>getChunkCentroid\<close>\<close>

text \<open>
  \<open>trim(a) = Math.floor((a + diameter / 2) / diameter) * diameter\<close>. With a diameter of
  zero the quotient is an infinity or \<open>NaN\<close> and the product with zero is \<open>NaN\<close>.
\<close>

definition trim :: "rat \<Rightarrow> jsnum \<Rightarrow> jsnum" where
  "trim diameter a =
     (case a of
        NaN \<Rightarrow> NaN
      | Num q \<Rightarrow>
          if diameter = 0 then NaN
          else Num (of_int \<lfloor>(q + diameter / 2) / diameter\<rfloor> * diameter))"

definition getChunkCentroid :: "jsnum list \<Rightarrow> rat \<Rightarrow> jsnum list" where
  "getChunkCentroid p diameter =
     [trim diameter (elemAt p 0), trim diameter (elemAt p 1), trim diameter (elemAt p 2)]"

section \<open>Colour derivation: \<open>crc32\<close> and \<open>getColor\<close>\<close>

text \<open>
  A JavaScript string is a sequence of UTF-16 code units; \<open>charCodeAt\<close> reads one of
  them. The bitwise operators of \<open>crc32\<close> work on 32-bit patterns, so the running checksum
  is a \<open>32 word\<close>: \<open>>>> 1\<close> is the logical shift and \<open>^\<close> the exclusive or.
\<close>

type_synonym jsstring = "16 word list"

text \<open>One round of the inner loop: \<open>crc = (crc >>> 1) ^ (crc & 1 ? 0xEDB88320 : 0)\<close>.\<close>

definition crcShift :: "32 word \<Rightarrow> 32 word" where
  "crcShift crc = drop_bit 1 crc XOR (if crc AND 1 \<noteq> 0 then 0xEDB88320 else 0)"

definition crc32 :: "jsstring \<Rightarrow> 32 word" where
  "crc32 str = fold (\<lambda>c crc. (crcShift ^^ 8) (crc XOR ucast c)) str 0xFFFFFFFF XOR 0xFFFFFFFF"

text \<open>
  \<open>Number.prototype.toString(radix)\<close> on a non-negative integer, for the radices the code
  uses (8 and 16): the digits, most significant first, without leading zeros.
\<close>

definition digitChar :: "nat \<Rightarrow> char" where
  "digitChar n = ''0123456789abcdefghijklmnopqrstuvwxyz'' ! n"

function toStringRadix :: "nat \<Rightarrow> nat \<Rightarrow> string" where
  "toStringRadix radix n =
     (if radix < 2 \<or> n < radix then [digitChar n]
      else toStringRadix radix (n div radix) @ [digitChar (n mod radix)])"
  by pat_completeness auto
termination
  by (relation "measure snd") auto

declare toStringRadix.simps [simp del]

text \<open>\<open>padStart\<close> with a one-character filler, \<open>Number(char)\<close> on a digit, \<open>toUpperCase\<close> on ASCII.\<close>

definition padStart :: "nat \<Rightarrow> char \<Rightarrow> string \<Rightarrow> string" where
  "padStart n c s = replicate (n - length s) c @ s"

definition digitValue :: "char \<Rightarrow> nat" where
  "digitValue c = of_char c - 48"

definition toUpperCase :: "string \<Rightarrow> string" where
  "toUpperCase s =
     map (\<lambda>c. if (97::nat) \<le> of_char c \<and> of_char c \<le> (122::nat)
              then char_of (of_char c - (32::nat)) else c) s"

text \<open>\<open>hexString.replace(/[0-7]/g, char => (Number(char) + shift).toString(16))\<close>.\<close>

definition replaceDigits :: "nat \<Rightarrow> string \<Rightarrow> string" where
  "replaceDigits shift s =
     concat (map (\<lambda>c. if (48::nat) \<le> of_char c \<and> of_char c \<le> (55::nat)
                         then toStringRadix 16 (digitValue c + shift) else [c]) s)"

text \<open>\<open>getColor\<close>; the display mode \<open>config.get("darkMode")\<close> is a parameter.\<close>

definition getColor :: "bool \<Rightarrow> jsstring \<Rightarrow> string" where
  "getColor darkMode family =
     (let value = unat (crc32 family AND 0x3FFFF);
          shift = (if darkMode then 3 else 7);
          hexString = padStart 6 (CHR ''0'') (toStringRadix 8 value)
      in CHR ''#'' # toUpperCase (replaceDigits shift hexString))"




section \<open>Data handler: \<open>iterGenes\<close>\<close>

text \<open>
  The data of one family is a JSON object whose entries are, in this order, the per-gene
  columns (among them \<open>genes\<close> and \<open>is_outlier\<close>), then the object of tissue columns and
  last the family centroid. \<open>iterGenes\<close> pops the last two entries and walks the indices
  of \<open>genes\<close>. The per-gene columns are modelled row by row, as one list of records (the
  columns are taken to be as long as \<open>genes\<close>); the tissue columns keep their own lengths
  and may lack a tissue altogether, which is where \<open>allTissueData[tissue]?.[i]\<close> yields
  \<open>undefined\<close>, modelled by \<open>None\<close>.
\<close>

type_synonym family = jsstring
type_synonym tissue = jsstring

record meta =
  gene :: jsstring
  is_outlier :: bool

record familyData =
  genes :: "meta list"
  tissueData :: "(tissue \<times> rat list) list"

type_synonym dataset = "(family \<times> familyData) list"

text \<open>The generator is modelled by the list of the records it yields, in order.\<close>

definition iterGenes :: "dataset \<Rightarrow> family \<Rightarrow> tissue list \<Rightarrow> (rat option list \<times> meta) list" where
  "iterGenes data family tissues =
     (case map_of data family of
        None \<Rightarrow> []
      | Some familyData \<Rightarrow>
          map (\<lambda>i. (map (\<lambda>tissue. case map_of (tissueData familyData) tissue of
                                     None \<Rightarrow> None
                                   | Some values \<Rightarrow>
                                       if i < length values then Some (values ! i) else None)
                         tissues,
                    genes familyData ! i))
              [0..<length (genes familyData)])"

section \<open>Chunk builder: \<open>calculateChunks\<close>\<close>

text \<open>
  A chunk is the five-element array \<open>[dataPoints, memberCounts, outlierCount, mesh, mesh]\<close>;
  the fields of the record are its indices 0 to 4. \<open>memberCounts\<close> is an object keyed by
  family, kept here with its insertion order, which is the order \<open>Object.entries\<close>
  walks (family names are taken not to be array indices). A geometry handle holds the two
  thin-instance buffers attached to it; object identity is not modelled.
\<close>

record point =
  coordinates :: "jsnum list"
  metaData :: meta

datatype shape = Sphere | Polyhedron

record mesh =
  meshShape :: shape
  matrixData :: "jsnum list option"
  colorData :: "jsnum list option"

record chunk =
  dataPoints :: "point list"
  memberCounts :: "(family \<times> nat) list"
  outlierCount :: nat
  sphereMesh :: "mesh option"
  octMesh :: "mesh option"

text \<open>
  The configuration store, read through \<open>config.get\<close>. The per-family keys
  \<open><family>_Color\<close>, \<open><family>_OutlierColor\<close>, \<open><family>_Diameter\<close> and
  \<open><family>_OutlierDiameter\<close> are \<open>undefined\<close> (\<open>None\<close>) unless set.
\<close>

record config =
  cfgChunkDiameter :: rat
  cfgChunkLoadRange :: rat
  cfgScale :: rat
  cfgTissueX :: tissue
  cfgTissueY :: tissue
  cfgTissueZ :: tissue
  cfgShownFamilies :: "family list option"
  cfgDarkMode :: bool
  cfgColor :: "family \<Rightarrow> string option"
  cfgOutlierColor :: "family \<Rightarrow> string option"
  cfgDiameter :: "family \<Rightarrow> rat option"
  cfgOutlierDiameter :: "family \<Rightarrow> rat option"

type_synonym chunkKey = "jsnum list"
type_synonym chunkMap = "chunkKey \<Rightarrow> chunk option"

text \<open>
  The chunk map is an object indexed by the centroid array, that is by the string
  \<open>chunk.toString()\<close>; two centroids give the same string exactly when their three
  coordinates agree, \<open>NaN\<close> included, so the key is the list of coordinates itself.
\<close>

definition emptyChunk :: chunk where
  "emptyChunk = \<lparr>dataPoints = [], memberCounts = [], outlierCount = 0,
                  sphereMesh = None, octMesh = None\<rparr>"

text \<open>\<open>coordinates.map((v) => v*scale)\<close>: an \<open>undefined\<close> coordinate becomes \<open>NaN\<close>.\<close>

definition scaleCoordinate :: "rat \<Rightarrow> rat option \<Rightarrow> jsnum" where
  "scaleCoordinate scale v = (case v of None \<Rightarrow> NaN | Some q \<Rightarrow> Num (q * scale))"

text \<open>\<open>memberCounts[family] ??= 0; memberCounts[family]++\<close>.\<close>

fun countMember :: "family \<Rightarrow> (family \<times> nat) list \<Rightarrow> (family \<times> nat) list" where
  "countMember family [] = [(family, 1)]"
| "countMember family ((f, n) # rest) =
     (if f = family then (f, n + 1) # rest else (f, n) # countMember family rest)"

text \<open>The test of lines 220 to 224, on the three axes.\<close>

definition inSight :: "chunkKey \<Rightarrow> rat \<Rightarrow> rat \<Rightarrow> rat \<Rightarrow> rat \<Rightarrow> bool" where
  "inSight chunk posX posY posZ sight =
     (jless (jabs (jsub (elemAt chunk 0) (Num posX))) (Num sight) \<and>
      jless (jabs (jsub (elemAt chunk 1) (Num posY))) (Num sight) \<and>
      jless (jabs (jsub (elemAt chunk 2) (Num posZ))) (Num sight))"

text \<open>The body of the inner loop, for one record yielded by \<open>iterGenes\<close>.\<close>

definition addPoint ::
  "rat \<Rightarrow> rat \<Rightarrow> rat \<Rightarrow> rat \<Rightarrow> rat \<Rightarrow> rat \<Rightarrow> family \<Rightarrow> rat option list \<times> meta \<Rightarrow>
     chunkMap \<times> chunkKey list \<Rightarrow> chunkMap \<times> chunkKey list" where
  "addPoint posX posY posZ sight scale chunkDiameter family g st =
     (let scaled = map (scaleCoordinate scale) (fst g);
          chunk = getChunkCentroid scaled chunkDiameter;
          chunks = fst st;
          activeChunks = snd st;
          c = (case chunks chunk of None \<Rightarrow> emptyChunk | Some c \<Rightarrow> c);
          activeChunks' =
            (case chunks chunk of
               None \<Rightarrow> if inSight chunk posX posY posZ sight
                        then activeChunks @ [chunk] else activeChunks
             | Some _ \<Rightarrow> activeChunks)
      in (chunks(chunk \<mapsto>
            c\<lparr>dataPoints := dataPoints c @ [\<lparr>coordinates = scaled, metaData = snd g\<rparr>],
              memberCounts := countMember family (memberCounts c),
              outlierCount := outlierCount c + (if is_outlier (snd g) then 1 else 0)\<rparr>),
          activeChunks'))"

definition calculateChunks ::
  "config \<Rightarrow> dataset \<Rightarrow> rat \<Rightarrow> rat \<Rightarrow> rat \<Rightarrow> rat \<Rightarrow> rat \<Rightarrow> chunkMap \<times> chunkKey list" where
  "calculateChunks cfg data posX posY posZ chunkDiameter chunkLoadRange =
     (let sight = (chunkLoadRange + 1 / 2) * chunkDiameter;
          tissues = [cfgTissueX cfg, cfgTissueY cfg, cfgTissueZ cfg];
          familiesToShow = (case cfgShownFamilies cfg of None \<Rightarrow> map fst data | Some fs \<Rightarrow> fs)
      in fold (\<lambda>family.
                 fold (addPoint posX posY posZ sight (cfgScale cfg) chunkDiameter family)
                      (iterGenes data family tissues))
              familiesToShow (Map.empty, []))"

section \<open>Chunk geometry loader: \<open>loadChunk\<close>\<close>

text \<open>
  The rendering engine is outside the program. Its calls that allocate and release
  geometry are recorded, in order, in the scene; \<open>Color4.FromHexString\<close> is a parameter.
  An uncaught exception leaves the objects as they were mutated up to the throw, so an
  outcome carries the state in both cases.
\<close>

datatype error = TypeError | RangeError

datatype 'a outcome = Returned 'a | Threw error 'a

datatype engineCall = CreateSphere | CreatePolyhedron | Dispose shape

type_synonym scene = "engineCall list"

datatype color4 = Color4 rat rat rat rat

text \<open>\<open>mesh?.dispose()\<close>: nothing is called on a \<open>null\<close> handle.\<close>

definition dispose :: "mesh option \<Rightarrow> scene \<Rightarrow> scene" where
  "dispose m scene = (case m of None \<Rightarrow> scene | Some g \<Rightarrow> scene @ [Dispose (meshShape g)])"

definition newMesh :: "shape \<Rightarrow> mesh" where
  "newMesh s = \<lparr>meshShape = s, matrixData = None, colorData = None\<rparr>"

text \<open>
  \<open>handle?.thinInstanceSetBuffer("matrix", ...)\<close> followed by
  \<open>handle?.thinInstanceSetBuffer("color", ...)\<close>.
\<close>

definition thinInstanceSetBuffers :: "jsnum list \<Rightarrow> jsnum list \<Rightarrow> mesh option \<Rightarrow> mesh option" where
  "thinInstanceSetBuffers dims cols m =
     map_option (\<lambda>g. g\<lparr>matrixData := Some dims, colorData := Some cols\<rparr>) m"

text \<open>
  A store into a \<open>Float32Array\<close>: an index outside the array is ignored. (The rounding of
  the stored value to single precision is outside the number model.)
\<close>

definition bufset :: "jsnum list \<Rightarrow> int \<Rightarrow> jsnum \<Rightarrow> jsnum list" where
  "bufset buf i v = (if 0 \<le> i \<and> i < int (length buf) then buf[nat i := v] else buf)"

definition fillThinInstanceBuffers ::
  "jsnum list \<Rightarrow> int \<Rightarrow> jsnum list \<Rightarrow> int \<Rightarrow> rat \<Rightarrow> jsnum list \<Rightarrow> color4 \<Rightarrow>
     jsnum list \<times> jsnum list" where
  "fillThinInstanceBuffers dimensionsBuffer dIndex colorBuffer cIndex diameter xyz color =
     (case color of Color4 r g b a \<Rightarrow>
        (let d1 = bufset dimensionsBuffer dIndex (Num diameter);
             d2 = bufset d1 (dIndex + 5) (Num diameter);
             d3 = bufset d2 (dIndex + 10) (Num diameter);
             d4 = bufset d3 (dIndex + 12) (elemAt xyz 0);
             d5 = bufset d4 (dIndex + 13) (elemAt xyz 1);
             d6 = bufset d5 (dIndex + 14) (elemAt xyz 2);
             d7 = bufset d6 (dIndex + 15) (Num 1);
             c1 = bufset colorBuffer cIndex (Num r);
             c2 = bufset c1 (cIndex + 1) (Num g);
             c3 = bufset c2 (cIndex + 2) (Num b);
             c4 = bufset c3 (cIndex + 3) (Num a)
         in (d7, c4)))"

text \<open>The local variables of the filling loops.\<close>

record fillState =
  outlierIndex :: nat
  sphereDimensionsBuffer :: "jsnum list"
  sphereColorBuffer :: "jsnum list"
  octDimensionsBuffer :: "jsnum list"
  octColorBuffer :: "jsnum list"

text \<open>
  The body of the loop over \<open>i\<close>. Reading \<open>dataPoints[index]\<close> past the end gives
  \<open>undefined\<close>, and \<open>pointData.is_outlier\<close> then throws a \<open>TypeError\<close>.
\<close>

definition fillPoint ::
  "config \<Rightarrow> point list \<Rightarrow> family \<Rightarrow> color4 \<Rightarrow> color4 \<Rightarrow> nat \<Rightarrow> nat \<Rightarrow> fillState \<Rightarrow>
     error + fillState" where
  "fillPoint cfg points family familyColor outlierColor familyIndex i st =
     (let index = familyIndex + i
      in if index < length points then
           (let pointData = points ! index
            in if is_outlier (metaData pointData) then
                 (let diameter = (case cfgOutlierDiameter cfg family of None \<Rightarrow> 1 / 4 | Some d \<Rightarrow> d);
                      bufs = fillThinInstanceBuffers
                               (octDimensionsBuffer st) (int (outlierIndex st) * 16)
                               (octColorBuffer st) (int (outlierIndex st) * 4)
                               diameter (coordinates pointData) outlierColor
                  in Inr (st\<lparr>octDimensionsBuffer := fst bufs, octColorBuffer := snd bufs,
                             outlierIndex := outlierIndex st + 1\<rparr>))
               else
                 (let diameter = (case cfgDiameter cfg family of None \<Rightarrow> 1 / 4 | Some d \<Rightarrow> d);
                      bufs = fillThinInstanceBuffers
                               (sphereDimensionsBuffer st) ((int index - int (outlierIndex st)) * 16)
                               (sphereColorBuffer st) ((int index - int (outlierIndex st)) * 4)
                               diameter (coordinates pointData) familyColor
                  in Inr (st\<lparr>sphereDimensionsBuffer := fst bufs, sphereColorBuffer := snd bufs\<rparr>)))
         else Inl TypeError)"

text \<open>A counted loop whose body may throw.\<close>

fun forIndices :: "(nat \<Rightarrow> 's \<Rightarrow> error + 's) \<Rightarrow> nat list \<Rightarrow> 's \<Rightarrow> error + 's" where
  "forIndices body [] st = Inr st"
| "forIndices body (i # rest) st =
     (case body i st of Inl e \<Rightarrow> Inl e | Inr st' \<Rightarrow> forIndices body rest st')"

text \<open>\<open>Object.entries(memberCounts).forEach\<close>, with \<open>familyIndex\<close> as an argument.\<close>

fun fillEntries ::
  "config \<Rightarrow> (string \<Rightarrow> color4) \<Rightarrow> point list \<Rightarrow> (family \<times> nat) list \<Rightarrow> nat \<Rightarrow> fillState \<Rightarrow>
     error + fillState" where
  "fillEntries cfg fromHexString points [] familyIndex st = Inr st"
| "fillEntries cfg fromHexString points ((family, chunkMemberCount) # rest) familyIndex st =
     (let familyColor =
            fromHexString (case cfgColor cfg family of
                             None \<Rightarrow> getColor (cfgDarkMode cfg) family
                           | Some hex \<Rightarrow> hex);
          outlierColor =
            (case cfgOutlierColor cfg family of
               None \<Rightarrow> familyColor
             | Some hex \<Rightarrow> fromHexString hex)
      in case forIndices (fillPoint cfg points family familyColor outlierColor familyIndex)
                         [0..<chunkMemberCount] st of
           Inl e \<Rightarrow> Inl e
         | Inr st' \<Rightarrow>
             fillEntries cfg fromHexString points rest (familyIndex + chunkMemberCount) st')"

text \<open>
  The four buffers of lines 255 to 263, zero-filled as \<open>new Float32Array(n)\<close> leaves
  them, and the two nested filling loops run on them.
\<close>

definition allocateBuffers :: "nat \<Rightarrow> nat \<Rightarrow> fillState" where
  "allocateBuffers normalCount outliers =
     \<lparr>outlierIndex = 0,
      sphereDimensionsBuffer = replicate (16 * normalCount) (Num 0),
      sphereColorBuffer = replicate (4 * normalCount) (Num 0),
      octDimensionsBuffer = replicate (16 * outliers) (Num 0),
      octColorBuffer = replicate (4 * outliers) (Num 0)\<rparr>"

definition fillBuffers :: "config \<Rightarrow> (string \<Rightarrow> color4) \<Rightarrow> chunk \<Rightarrow> error + fillState" where
  "fillBuffers cfg fromHexString c =
     fillEntries cfg fromHexString (dataPoints c) (memberCounts c) 0
       (allocateBuffers (nat (int (length (dataPoints c)) - int (outlierCount c)))
          (outlierCount c))"

text \<open>
  \<open>loadChunk(scene, chunkData, state)\<close>. \<open>new Float32Array(n)\<close> throws a \<open>RangeError\<close>
  for a negative length, before anything but the disposal has happened. The sphere is
  created when \<open>sphereColorBuffer.length > 0\<close>, the polyhedron when \<open>outlierCount > 0\<close>.
\<close>

definition loadChunk ::
  "config \<Rightarrow> (string \<Rightarrow> color4) \<Rightarrow> scene \<Rightarrow> chunk option \<Rightarrow> bool \<Rightarrow>
     (scene \<times> chunk option) outcome" where
  "loadChunk cfg fromHexString scene chunkData state =
     (case chunkData of
        None \<Rightarrow> Returned (scene, None)
      | Some c \<Rightarrow>
          if state then
            (let scene1 = dispose (octMesh c) (dispose (sphereMesh c) scene);
                 normalCount = int (length (dataPoints c)) - int (outlierCount c)
             in if normalCount < 0 then Threw RangeError (scene1, Some c)
                else
                  (let scene2 = (if 0 < 4 * nat normalCount
                                 then scene1 @ [CreateSphere] else scene1);
                       c2 = (if 0 < 4 * nat normalCount
                             then c\<lparr>sphereMesh := Some (newMesh Sphere)\<rparr> else c);
                       scene3 = (if 0 < outlierCount c
                                 then scene2 @ [CreatePolyhedron] else scene2);
                       c3 = (if 0 < outlierCount c
                             then c2\<lparr>octMesh := Some (newMesh Polyhedron)\<rparr> else c2)
                   in case fillBuffers cfg fromHexString c of
                        Inl e \<Rightarrow> Threw e (scene3, Some c3)
                      | Inr st \<Rightarrow>
                          Returned
                            (scene3,
                             Some (c3\<lparr>sphereMesh :=
                                        thinInstanceSetBuffers (sphereDimensionsBuffer st)
                                          (sphereColorBuffer st) (sphereMesh c3),
                                      octMesh :=
                                        thinInstanceSetBuffers (octDimensionsBuffer st)
                                          (octColorBuffer st) (octMesh c3)\<rparr>))))
          else
            Returned (dispose (octMesh c) (dispose (sphereMesh c) scene),
                      Some (c\<lparr>sphereMesh := None, octMesh := None\<rparr>)))"

text \<open>The state an outcome carries, whether the call returned or threw.\<close>

fun stateOf :: "'a outcome \<Rightarrow> 'a" where
  "stateOf (Returned x) = x"
| "stateOf (Threw e x) = x"

fun returned :: "'a outcome \<Rightarrow> bool" where
  "returned (Returned x) = True"
| "returned (Threw e x) = False"

section \<open>Streaming controller: \<open>plotData\<close> and its per-frame callback\<close>

text \<open>
  The variables that \<open>plotData\<close> closes over and the callback reads and writes, together
  with the scene. \<open>triggeredChunkCentroid\<close> is the scratch array reused across iterations.
\<close>

record plotState =
  chunks :: chunkMap
  activeChunks :: "chunkKey list"
  chunkDiameter :: rat
  chunkLoadRange :: rat
  lastChunkDist :: rat
  chunkCentroid :: "jsnum list"
  triggeredChunkCentroid :: "jsnum list"
  scene :: scene

text \<open>
  \<open>loadChunk(scene, chunks[key], state)\<close>: the chunk object is mutated in place, so the
  result is stored back under its key; a key without a chunk leaves the map as it is.
\<close>

definition storeChunk :: "chunkKey \<Rightarrow> scene \<times> chunk option \<Rightarrow> plotState \<Rightarrow> plotState" where
  "storeChunk key r st =
     st\<lparr>scene := fst r,
        chunks := (case snd r of None \<Rightarrow> chunks st | Some c \<Rightarrow> (chunks st)(key \<mapsto> c))\<rparr>"

definition loadAt ::
  "config \<Rightarrow> (string \<Rightarrow> color4) \<Rightarrow> chunkKey \<Rightarrow> bool \<Rightarrow> plotState \<Rightarrow> plotState outcome" where
  "loadAt cfg fromHexString key state st =
     (case loadChunk cfg fromHexString (scene st) (chunks st key) state of
        Returned r \<Rightarrow> Returned (storeChunk key r st)
      | Threw e r \<Rightarrow> Threw e (storeChunk key r st))"

text \<open>The body of the inner loop (lines 135 to 153), for one value of \<open>bAxis\<close>.\<close>

definition sweepStep ::
  "config \<Rightarrow> (string \<Rightarrow> color4) \<Rightarrow> nat \<Rightarrow> jsnum \<Rightarrow> rat \<Rightarrow> jsnum \<Rightarrow> rat \<Rightarrow> plotState \<Rightarrow>
     plotState outcome" where
  "sweepStep cfg fromHexString i currentAxis direction axis bAxis st =
     (let k = (i + 2) mod 3;
          t1 = (triggeredChunkCentroid st)[k := jadd (elemAt (chunkCentroid st) k) (Num bAxis)];
          t2 = t1[i := jadd currentAxis (Num (direction * lastChunkDist st))]
      in case loadAt cfg fromHexString t2 True (st\<lparr>triggeredChunkCentroid := t2\<rparr>) of
           Threw e s \<Rightarrow> Threw e s
         | Returned s1 \<Rightarrow>
             (let s2 = s1\<lparr>activeChunks := activeChunks s1 @ [t2]\<rparr>;
                  t3 = t2[i := jsub axis (Num (direction * lastChunkDist st))]
              in case loadAt cfg fromHexString t3 False (s2\<lparr>triggeredChunkCentroid := t3\<rparr>) of
                   Threw e s \<Rightarrow> Threw e s
                 | Returned s3 \<Rightarrow>
                     Returned (s3\<lparr>activeChunks := remove1 t3 (activeChunks s3)\<rparr>)))"

text \<open>
  The two \<open>for\<close> loops. Nothing in the code bounds the number of rounds (a chunk diameter
  that is not positive never lets the loop variable pass \<open>lastChunkDist\<close>), so a run that
  does not return is the value \<open>None\<close>.
\<close>

partial_function (option) bLoop ::
  "config \<Rightarrow> (string \<Rightarrow> color4) \<Rightarrow> nat \<Rightarrow> jsnum \<Rightarrow> rat \<Rightarrow> jsnum \<Rightarrow> rat \<Rightarrow> plotState \<Rightarrow>
     plotState outcome option" where
  "bLoop cfg fromHexString i currentAxis direction axis bAxis st =
     (if bAxis \<le> lastChunkDist st then
        (case sweepStep cfg fromHexString i currentAxis direction axis bAxis st of
           Threw e s \<Rightarrow> Some (Threw e s)
         | Returned s \<Rightarrow>
             bLoop cfg fromHexString i currentAxis direction axis (bAxis + chunkDiameter s) s)
      else Some (Returned st))"

partial_function (option) aLoop ::
  "config \<Rightarrow> (string \<Rightarrow> color4) \<Rightarrow> nat \<Rightarrow> jsnum \<Rightarrow> rat \<Rightarrow> jsnum \<Rightarrow> rat \<Rightarrow> plotState \<Rightarrow>
     plotState outcome option" where
  "aLoop cfg fromHexString i currentAxis direction axis aAxis st =
     (if aAxis \<le> lastChunkDist st then
        (let j = (i + 1) mod 3;
             st1 = st\<lparr>triggeredChunkCentroid :=
                        (triggeredChunkCentroid st)
                          [j := jadd (elemAt (chunkCentroid st) j) (Num aAxis)]\<rparr>
         in Option.bind
              (bLoop cfg fromHexString i currentAxis direction axis (- lastChunkDist st1) st1)
              (\<lambda>r. case r of
                      Threw e s \<Rightarrow> Some (Threw e s)
                    | Returned s \<Rightarrow>
                        aLoop cfg fromHexString i currentAxis direction axis
                          (aAxis + chunkDiameter s) s))
      else Some (Returned st))"

text \<open>The callback of \<open>chunkCentroid.forEach\<close> for the axis \<open>i\<close>.\<close>

definition axisUpdate ::
  "config \<Rightarrow> (string \<Rightarrow> color4) \<Rightarrow> jsnum list \<Rightarrow> nat \<Rightarrow> plotState \<Rightarrow> plotState outcome option" where
  "axisUpdate cfg fromHexString currentChunkCentroid i st =
     (let axis = elemAt (chunkCentroid st) i;
          currentAxis = elemAt currentChunkCentroid i
      in if \<not> jseq currentAxis axis then
           (let direction = (if jless axis currentAxis then 1 else - 1)
            in aLoop cfg fromHexString i currentAxis direction axis (- lastChunkDist st) st)
         else Some (Returned st))"

fun forEachAxis ::
  "config \<Rightarrow> (string \<Rightarrow> color4) \<Rightarrow> jsnum list \<Rightarrow> nat list \<Rightarrow> plotState \<Rightarrow>
     plotState outcome option" where
  "forEachAxis cfg fromHexString cur [] st = Some (Returned st)"
| "forEachAxis cfg fromHexString cur (i # rest) st =
     (case axisUpdate cfg fromHexString cur i st of
        None \<Rightarrow> None
      | Some (Threw e s) \<Rightarrow> Some (Threw e s)
      | Some (Returned s) \<Rightarrow> forEachAxis cfg fromHexString cur rest s)"

text \<open>
  The callback registered with \<open>scene.registerBeforeRender\<close>, for the camera position of
  the frame. An exception leaves \<open>chunkCentroid\<close> as it was.
\<close>

definition beforeRender ::
  "config \<Rightarrow> (string \<Rightarrow> color4) \<Rightarrow> rat \<Rightarrow> rat \<Rightarrow> rat \<Rightarrow> plotState \<Rightarrow> plotState outcome option" where
  "beforeRender cfg fromHexString x y z st =
     (let currentChunkCentroid = getChunkCentroid [Num x, Num y, Num z] (chunkDiameter st)
      in case forEachAxis cfg fromHexString currentChunkCentroid
                [0..<length (chunkCentroid st)] st of
           None \<Rightarrow> None
         | Some (Threw e s) \<Rightarrow> Some (Threw e s)
         | Some (Returned s) \<Rightarrow> Some (Returned (s\<lparr>chunkCentroid := currentChunkCentroid\<rparr>)))"

text \<open>\<open>for (const chunk of activeChunks) loadChunk(scene, chunks[chunk])\<close>.\<close>

fun loadActive ::
  "config \<Rightarrow> (string \<Rightarrow> color4) \<Rightarrow> chunkKey list \<Rightarrow> plotState \<Rightarrow> plotState outcome" where
  "loadActive cfg fromHexString [] st = Returned st"
| "loadActive cfg fromHexString (key # rest) st =
     (case loadAt cfg fromHexString key True st of
        Threw e s \<Rightarrow> Threw e s
      | Returned s \<Rightarrow> loadActive cfg fromHexString rest s)"

text \<open>
  \<open>plotData\<close> up to the registration of the callback, for the camera position at the
  start; the grid lines it draws last are not part of the model.
\<close>

definition plotData ::
  "config \<Rightarrow> (string \<Rightarrow> color4) \<Rightarrow> dataset \<Rightarrow> rat \<Rightarrow> rat \<Rightarrow> rat \<Rightarrow> plotState outcome" where
  "plotData cfg fromHexString data posX posY posZ =
     (let d = cfgChunkDiameter cfg;
          r = cfgChunkLoadRange cfg;
          built = calculateChunks cfg data posX posY posZ d r;
          st0 = \<lparr>chunks = fst built, activeChunks = snd built,
                 chunkDiameter = d, chunkLoadRange = r, lastChunkDist = r * d,
                 chunkCentroid = getChunkCentroid [Num posX, Num posY, Num posZ] d,
                 triggeredChunkCentroid = [Num 0, Num 0, Num 0],
                 scene = []\<rparr>
      in loadActive cfg fromHexString (activeChunks st0) st0)"

section \<open>Notions used to state the properties\<close>

text \<open>
  The point source as one sequence: the records that the two nested loops of
  \<open>calculateChunks\<close> visit, each with the family it is visited under, in visiting order.
\<close>

definition pointSource :: "config \<Rightarrow> dataset \<Rightarrow> (family \<times> rat option list \<times> meta) list" where
  "pointSource cfg data =
     concat (map (\<lambda>family. map (Pair family)
                    (iterGenes data family [cfgTissueX cfg, cfgTissueY cfg, cfgTissueZ cfg]))
               (case cfgShownFamilies cfg of None \<Rightarrow> map fst data | Some fs \<Rightarrow> fs))"

text \<open>The stored point of a record, and the chunk key of its scaled coordinates.\<close>

definition pointOf :: "rat \<Rightarrow> family \<times> rat option list \<times> meta \<Rightarrow> point" where
  "pointOf scale s = \<lparr>coordinates = map (scaleCoordinate scale) (fst (snd s)), metaData = snd (snd s)\<rparr>"

definition keyOf :: "rat \<Rightarrow> rat \<Rightarrow> family \<times> rat option list \<times> meta \<Rightarrow> chunkKey" where
  "keyOf scale d s = getChunkCentroid (map (scaleCoordinate scale) (fst (snd s))) d"



text \<open>
  One round of the loops, on a record of the point source, and a chunk after a run of
  records has been added to it.
\<close>


definition stepPoint ::
  "rat \<Rightarrow> rat \<Rightarrow> rat \<Rightarrow> rat \<Rightarrow> rat \<Rightarrow> rat \<Rightarrow> family \<times> rat option list \<times> meta \<Rightarrow>
     chunkMap \<times> chunkKey list \<Rightarrow> chunkMap \<times> chunkKey list" where
  "stepPoint posX posY posZ sight scale d s = addPoint posX posY posZ sight scale d (fst s) (snd s)"

definition extendChunk :: "rat \<Rightarrow> chunk \<Rightarrow> (family \<times> rat option list \<times> meta) list \<Rightarrow> chunk" where
  "extendChunk scale c ps =
     c\<lparr>dataPoints := dataPoints c @ map (pointOf scale) ps,
       memberCounts := fold countMember (map fst ps) (memberCounts c),
       outlierCount := outlierCount c + length (filter (\<lambda>s. is_outlier (snd (snd s))) ps)\<rparr>"


text \<open>
  What an activation is expected to write. \<open>instanceSlot\<close> is one 4 by 4 transform: the
  diameter on the diagonal (offsets 0, 5 and 10), the coordinates at offsets 12 to 14, 1
  at offset 15 and 0 elsewhere; \<open>colorSlot\<close> is one rgba entry. The loops of \<open>loadChunk\<close>
  attribute the point at a position of the sequence to the family whose \<open>memberCounts\<close>
  entry covers that position; \<open>familySequence\<close> lists these families position by position.
\<close>

definition instanceSlot :: "rat \<Rightarrow> jsnum list \<Rightarrow> jsnum list" where
  "instanceSlot diameter xyz =
     [Num diameter, Num 0, Num 0, Num 0,
      Num 0, Num diameter, Num 0, Num 0,
      Num 0, Num 0, Num diameter, Num 0,
      elemAt xyz 0, elemAt xyz 1, elemAt xyz 2, Num 1]"

fun colorSlot :: "color4 \<Rightarrow> jsnum list" where
  "colorSlot (Color4 r g b a) = [Num r, Num g, Num b, Num a]"

definition familySequence :: "(family \<times> nat) list \<Rightarrow> family list" where
  "familySequence mc = concat (map (\<lambda>e. replicate (snd e) (fst e)) mc)"

definition familyColorOf :: "config \<Rightarrow> (string \<Rightarrow> color4) \<Rightarrow> family \<Rightarrow> color4" where
  "familyColorOf cfg fromHexString family =
     fromHexString (case cfgColor cfg family of
                      None \<Rightarrow> getColor (cfgDarkMode cfg) family
                    | Some hex \<Rightarrow> hex)"

definition outlierColorOf :: "config \<Rightarrow> (string \<Rightarrow> color4) \<Rightarrow> family \<Rightarrow> color4" where
  "outlierColorOf cfg fromHexString family =
     (case cfgOutlierColor cfg family of
        None \<Rightarrow> familyColorOf cfg fromHexString family
      | Some hex \<Rightarrow> fromHexString hex)"

definition diameterOf :: "config \<Rightarrow> family \<Rightarrow> rat" where
  "diameterOf cfg family = (case cfgDiameter cfg family of None \<Rightarrow> 1 / 4 | Some d \<Rightarrow> d)"

definition outlierDiameterOf :: "config \<Rightarrow> family \<Rightarrow> rat" where
  "outlierDiameterOf cfg family = (case cfgOutlierDiameter cfg family of None \<Rightarrow> 1 / 4 | Some d \<Rightarrow> d)"

text \<open>The two categories of a sequence of points, each point with its attributed family.\<close>

definition normalPoints :: "(family \<times> point) list \<Rightarrow> (family \<times> point) list" where
  "normalPoints ps = filter (\<lambda>e. \<not> is_outlier (metaData (snd e))) ps"

definition outlierPoints :: "(family \<times> point) list \<Rightarrow> (family \<times> point) list" where
  "outlierPoints ps = filter (\<lambda>e. is_outlier (metaData (snd e))) ps"

text \<open>
  The local variables of the filling loops once the points \<open>ps\<close> have been written, for
  buffers with room for \<open>N\<close> normal and \<open>M\<close> outlier instances.
\<close>

definition fillResult ::
  "config \<Rightarrow> (string \<Rightarrow> color4) \<Rightarrow> nat \<Rightarrow> nat \<Rightarrow> (family \<times> point) list \<Rightarrow> fillState" where
  "fillResult cfg fromHexString N M ps =
     \<lparr>outlierIndex = length (outlierPoints ps),
      sphereDimensionsBuffer =
        concat (map (\<lambda>e. instanceSlot (diameterOf cfg (fst e)) (coordinates (snd e))) (normalPoints ps))
          @ replicate (16 * (N - length (normalPoints ps))) (Num 0),
      sphereColorBuffer =
        concat (map (\<lambda>e. colorSlot (familyColorOf cfg fromHexString (fst e))) (normalPoints ps))
          @ replicate (4 * (N - length (normalPoints ps))) (Num 0),
      octDimensionsBuffer =
        concat (map (\<lambda>e. instanceSlot (outlierDiameterOf cfg (fst e)) (coordinates (snd e))) (outlierPoints ps))
          @ replicate (16 * (M - length (outlierPoints ps))) (Num 0),
      octColorBuffer =
        concat (map (\<lambda>e. colorSlot (outlierColorOf cfg fromHexString (fst e))) (outlierPoints ps))
          @ replicate (4 * (M - length (outlierPoints ps))) (Num 0)\<rparr>"


text \<open>
  The points of a chunk with their attributed families, and the two facts about a chunk
  that the filling loops rely on: the member counts add up to the number of points and
  the outlier count is the number of points flagged \<open>is_outlier\<close>.
\<close>


definition attributed :: "chunk \<Rightarrow> (family \<times> point) list" where
  "attributed c = zip (familySequence (memberCounts c)) (dataPoints c)"

definition wellFormed :: "chunk \<Rightarrow> bool" where
  "wellFormed c =
     (sum_list (map snd (memberCounts c)) = length (dataPoints c) \<and>
      outlierCount c = length (filter (\<lambda>p. is_outlier (metaData p)) (dataPoints c)))"


text \<open>
  The values a loop variable takes when it starts at \<open>b\<close>, is raised by \<open>d\<close> each round
  and the loop runs while it is at most \<open>L\<close>; the offsets of a sweep start at \<open>-L\<close>.
  \<open>forOffsets\<close> runs a body that may throw over such a list, and \<open>aBody\<close> is one round of
  the outer loop of the sweep written with it.
\<close>

definition offsetsFrom :: "rat \<Rightarrow> rat \<Rightarrow> rat \<Rightarrow> rat list" where
  "offsetsFrom d L b = map (\<lambda>n. b + of_nat n * d) [0..<nat (\<lfloor>(L - b) / d\<rfloor> + 1)]"

definition shellOffsets :: "rat \<Rightarrow> rat \<Rightarrow> rat list" where
  "shellOffsets d L = offsetsFrom d L (- L)"

fun forOffsets :: "(rat \<Rightarrow> 's \<Rightarrow> 's outcome) \<Rightarrow> rat list \<Rightarrow> 's \<Rightarrow> 's outcome" where
  "forOffsets body [] st = Returned st"
| "forOffsets body (b # bs) st =
     (case body b st of Threw e s \<Rightarrow> Threw e s | Returned s \<Rightarrow> forOffsets body bs s)"

definition aBody ::
  "config \<Rightarrow> (string \<Rightarrow> color4) \<Rightarrow> nat \<Rightarrow> jsnum \<Rightarrow> rat \<Rightarrow> jsnum \<Rightarrow> rat \<Rightarrow> plotState \<Rightarrow> plotState outcome" where
  "aBody cfg hex i currentAxis direction axis aAxis st =
     forOffsets (sweepStep cfg hex i currentAxis direction axis)
       (shellOffsets (chunkDiameter st) (lastChunkDist st))
       (st\<lparr>triggeredChunkCentroid :=
             (triggeredChunkCentroid st)
               [(i + 1) mod 3 := jadd (elemAt (chunkCentroid st) ((i + 1) mod 3)) (Num aAxis)]\<rparr>)"

text \<open>
  Activation and deactivation of the chunk under a key, as maps between chunk maps (a key
  without a chunk changes nothing), and the condition that every chunk of a map is well
  formed.
\<close>

definition switchOn :: "config \<Rightarrow> (string \<Rightarrow> color4) \<Rightarrow> chunkKey \<Rightarrow> chunkMap \<Rightarrow> chunkMap" where
  "switchOn cfg hex K m =
     (case m K of
        None \<Rightarrow> m
      | Some c \<Rightarrow>
          (case snd (stateOf (loadChunk cfg hex [] (Some c) True)) of
             None \<Rightarrow> m
           | Some c' \<Rightarrow> m(K \<mapsto> c')))"

definition switchOff :: "chunkKey \<Rightarrow> chunkMap \<Rightarrow> chunkMap" where
  "switchOff K m =
     (case m K of None \<Rightarrow> m | Some c \<Rightarrow> m(K \<mapsto> c\<lparr>sphereMesh := None, octMesh := None\<rparr>))"

definition wellFormedMap :: "chunkMap \<Rightarrow> bool" where
  "wellFormedMap m = (\<forall>K c. m K = Some c \<longrightarrow> wellFormed c)"

text \<open>
  The key whose coordinate on the axis \<open>i\<close> is \<open>z\<close> and whose coordinates on the next two
  axes (cyclically) are \<open>x\<close> and \<open>y\<close>; the key of a shell, at the offsets \<open>a\<close> and \<open>b\<close>
  from a centroid on the two other axes; a face of the shell, as the list of its keys in
  sweeping order; and the pairs of keys that one sweep activates and deactivates.
\<close>

definition keyAt :: "nat \<Rightarrow> jsnum \<Rightarrow> jsnum \<Rightarrow> jsnum \<Rightarrow> chunkKey" where
  "keyAt i x y z = [NaN, NaN, NaN][(i + 1) mod 3 := x, (i + 2) mod 3 := y, i := z]"

definition shellKey :: "nat \<Rightarrow> jsnum list \<Rightarrow> jsnum \<Rightarrow> rat \<Rightarrow> rat \<Rightarrow> chunkKey" where
  "shellKey i centroid v a b =
     keyAt i (jadd (elemAt centroid ((i + 1) mod 3)) (Num a))
             (jadd (elemAt centroid ((i + 2) mod 3)) (Num b)) v"

definition shellFace :: "nat \<Rightarrow> jsnum list \<Rightarrow> jsnum \<Rightarrow> rat list \<Rightarrow> chunkKey list" where
  "shellFace i centroid v offsets =
     concat (map (\<lambda>a. map (\<lambda>b. shellKey i centroid v a b) offsets) offsets)"

definition shellPairs ::
  "nat \<Rightarrow> jsnum list \<Rightarrow> jsnum \<Rightarrow> jsnum \<Rightarrow> rat list \<Rightarrow> (chunkKey \<times> chunkKey) list" where
  "shellPairs i centroid on off offsets =
     concat (map (\<lambda>a. map (\<lambda>b. (shellKey i centroid on a b, shellKey i centroid off a b)) offsets)
               offsets)"

text \<open>One round of the inner loop on the chunk map and the active list alone.\<close>

definition applyPair ::
  "config \<Rightarrow> (string \<Rightarrow> color4) \<Rightarrow> chunkKey \<times> chunkKey \<Rightarrow> chunkMap \<times> chunkKey list \<Rightarrow>
     chunkMap \<times> chunkKey list" where
  "applyPair cfg hex p ma =
     (switchOff (snd p) (switchOn cfg hex (fst p) (fst ma)), remove1 (snd p) (snd ma @ [fst p]))"

section \<open>A small configuration and two data sets\<close>

text \<open>
  Chunk diameter 10, load range 1 and scale 1, with the tissues \<open>x\<close>, \<open>y\<close> and \<open>z\<close>.
  The family \<open>a\<close> of the first data set has a point at \<open>(4, 4, 4)\<close> and an outlier at
  \<open>(20, 20, 0)\<close>; in the second its only gene has a value for the tissue \<open>x\<close> alone.
\<close>


definition exampleConfig :: config where
  "exampleConfig =
     \<lparr>cfgChunkDiameter = 10, cfgChunkLoadRange = 1, cfgScale = 1,
      cfgTissueX = [120], cfgTissueY = [121], cfgTissueZ = [122],
      cfgShownFamilies = None, cfgDarkMode = True,
      cfgColor = (\<lambda>f. None), cfgOutlierColor = (\<lambda>f. None),
      cfgDiameter = (\<lambda>f. None), cfgOutlierDiameter = (\<lambda>f. None)\<rparr>"

definition exampleData :: dataset where
  "exampleData =
     [([97],
       \<lparr>genes = [\<lparr>gene = [103, 49], is_outlier = False\<rparr>,
                 \<lparr>gene = [103, 50], is_outlier = True\<rparr>],
        tissueData = [([120], [4, 20]), ([121], [4, 20]), ([122], [4, 0])]\<rparr>)]"



text \<open>
  A colour parser that returns opaque red whatever it is given, and a chunk with three
  normal points and one outlier, not yet activated.
\<close>

definition exampleHex :: "string \<Rightarrow> color4" where
  "exampleHex s = Color4 1 0 0 1"



text \<open>
  A family with points at \<open>(0, 0, 0)\<close>, \<open>(-10, 0, 0)\<close> and \<open>(20, 0, 0)\<close>, and the state
  in which \<open>plotData\<close> leaves the controller for this data with the camera at the origin.
\<close>

definition shellData :: dataset where
  "shellData =
     [([97],
       \<lparr>genes = [\<lparr>gene = [103, 49], is_outlier = False\<rparr>,
                 \<lparr>gene = [103, 50], is_outlier = False\<rparr>,
                 \<lparr>gene = [103, 51], is_outlier = False\<rparr>],
        tissueData = [([120], [0, - 10, 20]), ([121], [0, 0, 0]), ([122], [0, 0, 0])]\<rparr>)]"

definition shellStart :: plotState where
  "shellStart = stateOf (plotData exampleConfig exampleHex shellData 0 0 0)"

definition diagonalStart :: plotState where
  "diagonalStart = stateOf (plotData exampleConfig exampleHex exampleData 4 4 0)"

section \<open>Arithmetic of the number model\<close>

lemma floor_rat_numeral [simp]:
  "\<lfloor>numeral a / numeral b :: rat\<rfloor> = numeral a div numeral b"
  by (metis floor_divide_of_int_eq of_int_numeral)

lemma floor_rat_neg_numeral [simp]:
  "\<lfloor>- (numeral a / numeral b) :: rat\<rfloor> = - numeral a div numeral b"
  by (metis floor_divide_of_int_eq of_int_numeral of_int_minus minus_divide_left)

lemma floor_rat_one_numeral [simp]:
  "\<lfloor>1 / numeral b :: rat\<rfloor> = 1 div numeral b"
  by (metis floor_divide_of_int_eq of_int_numeral of_int_1)

lemma floor_rat_neg_one_numeral [simp]:
  "\<lfloor>- (1 / numeral b) :: rat\<rfloor> = - 1 div numeral b"
  by (metis floor_divide_of_int_eq of_int_numeral of_int_1 of_int_minus minus_divide_left)

section \<open>Properties of the grid indexer\<close>



section \<open>Properties of the colour derivation\<close>




















section \<open>Properties of the chunk builder\<close>

lemma fold_families:
  "fold (\<lambda>family. fold (f family) (gs family)) fs st
     = fold (\<lambda>s. f (fst s) (snd s)) (concat (map (\<lambda>family. map (Pair family) (gs family)) fs)) st"
proof (induction fs arbitrary: st)
  case Nil
  show ?case by simp
next
  case (Cons a fs)
  have "fold (\<lambda>s. f (fst s) (snd s)) (map (Pair a) (gs a)) st = fold (f a) (gs a) st"
    by (simp add: fold_map o_def)
  with Cons show ?case by simp
qed

lemma calculateChunks_fold:
  "calculateChunks cfg data posX posY posZ d r =
     fold (stepPoint posX posY posZ ((r + 1 / 2) * d) (cfgScale cfg) d) (pointSource cfg data) (Map.empty, [])"
  unfolding calculateChunks_def pointSource_def Let_def stepPoint_def
  by (rule fold_families)

lemma extendChunk_Nil [simp]: "extendChunk scale c [] = c"
  by (simp add: extendChunk_def)

lemma extendChunk_append:
  "extendChunk scale (extendChunk scale c xs) ys = extendChunk scale c (xs @ ys)"
  by (simp add: extendChunk_def)

lemma stepPoint_chunks:
  "fst (stepPoint posX posY posZ sight scale d s (m, act)) =
     m(keyOf scale d s \<mapsto> extendChunk scale (case m (keyOf scale d s) of None \<Rightarrow> emptyChunk | Some c \<Rightarrow> c) [s])"
  by (simp add: stepPoint_def addPoint_def Let_def keyOf_def extendChunk_def pointOf_def)

lemma stepPoint_active:
  "snd (stepPoint posX posY posZ sight scale d s (m, act)) =
     (if m (keyOf scale d s) = None \<and> inSight (keyOf scale d s) posX posY posZ sight
      then act @ [keyOf scale d s] else act)"
  by (simp add: stepPoint_def addPoint_def Let_def keyOf_def split: option.splits)

lemma fold_stepPoint_chunks:
  "fst (fold (stepPoint posX posY posZ sight scale d) xs (m, act)) K =
     (if filter (\<lambda>s. keyOf scale d s = K) xs = [] then m K
      else Some (extendChunk scale (case m K of None \<Rightarrow> emptyChunk | Some c \<Rightarrow> c)
                   (filter (\<lambda>s. keyOf scale d s = K) xs)))"
proof (induction xs arbitrary: m act)
  case Nil
  show ?case by simp
next
  case (Cons x xs)
  obtain m1 act1 where st1: "stepPoint posX posY posZ sight scale d x (m, act) = (m1, act1)"
    by (cases "stepPoint posX posY posZ sight scale d x (m, act)")
  have m1: "m1 = m(keyOf scale d x \<mapsto> extendChunk scale (case m (keyOf scale d x) of None \<Rightarrow> emptyChunk | Some c \<Rightarrow> c) [x])"
    using stepPoint_chunks [of posX posY posZ sight scale d x m act] st1 by simp
  have "fst (fold (stepPoint posX posY posZ sight scale d) (x # xs) (m, act)) K
      = fst (fold (stepPoint posX posY posZ sight scale d) xs (m1, act1)) K"
    by (simp add: st1)
  also have "\<dots> = (if filter (\<lambda>s. keyOf scale d s = K) xs = [] then m1 K
      else Some (extendChunk scale (case m1 K of None \<Rightarrow> emptyChunk | Some c \<Rightarrow> c)
                   (filter (\<lambda>s. keyOf scale d s = K) xs)))"
    by (rule Cons.IH)
  also have "\<dots> = (if filter (\<lambda>s. keyOf scale d s = K) (x # xs) = [] then m K
      else Some (extendChunk scale (case m K of None \<Rightarrow> emptyChunk | Some c \<Rightarrow> c)
                   (filter (\<lambda>s. keyOf scale d s = K) (x # xs))))"
    by (simp add: m1 extendChunk_append)
  finally show ?case .
qed



lemma fold_stepPoint_active:
  "set (snd (fold (stepPoint posX posY posZ sight scale d) xs (m, act)))
     = set act \<union> {K \<in> keyOf scale d ` set xs. m K = None \<and> inSight K posX posY posZ sight}"
proof (induction xs arbitrary: m act)
  case Nil
  show ?case by simp
next
  case (Cons x xs)
  let ?k = "keyOf scale d x"
  let ?m1 = "fst (stepPoint posX posY posZ sight scale d x (m, act))"
  let ?act1 = "snd (stepPoint posX posY posZ sight scale d x (m, act))"
  have none: "(?m1 K = None) = (K \<noteq> ?k \<and> m K = None)" for K
    by (simp add: stepPoint_chunks)
  have "set (snd (fold (stepPoint posX posY posZ sight scale d) (x # xs) (m, act)))
      = set (snd (fold (stepPoint posX posY posZ sight scale d) xs (?m1, ?act1)))"
    by simp
  also have "\<dots> = set ?act1 \<union> {K \<in> keyOf scale d ` set xs. ?m1 K = None \<and> inSight K posX posY posZ sight}"
    by (rule Cons.IH)
  also have "\<dots> = set act \<union> {K \<in> keyOf scale d ` set (x # xs). m K = None \<and> inSight K posX posY posZ sight}"
    unfolding none by (auto simp: stepPoint_active)
  finally show ?case .
qed

lemma fold_stepPoint_distinct:
  "distinct act \<Longrightarrow> set act \<subseteq> dom m \<Longrightarrow>
     distinct (snd (fold (stepPoint posX posY posZ sight scale d) xs (m, act)))"
proof (induction xs arbitrary: m act)
  case Nil
  then show ?case by simp
next
  case (Cons x xs)
  let ?m1 = "fst (stepPoint posX posY posZ sight scale d x (m, act))"
  let ?act1 = "snd (stepPoint posX posY posZ sight scale d x (m, act))"
  have d1: "distinct ?act1"
    using Cons.prems by (auto simp: stepPoint_active)
  have s1: "set ?act1 \<subseteq> dom ?m1"
    using Cons.prems by (auto simp: stepPoint_active stepPoint_chunks)
  have "distinct (snd (fold (stepPoint posX posY posZ sight scale d) xs (?m1, ?act1)))"
    using d1 s1 by (rule Cons.IH)
  then show ?case by simp
qed



lemma sum_countMember:
  "sum_list (map snd (countMember f mc)) = sum_list (map snd mc) + 1"
  by (induction mc) auto

lemma sum_fold_countMember:
  "sum_list (map snd (fold countMember fs mc)) = sum_list (map snd mc) + length fs"
  by (induction fs arbitrary: mc) (auto simp: sum_countMember)




lemma pointSource_example:
  "pointSource exampleConfig exampleData =
     [([97], [Some 4, Some 4, Some 4], \<lparr>gene = [103, 49], is_outlier = False\<rparr>),
      ([97], [Some 20, Some 20, Some 0], \<lparr>gene = [103, 50], is_outlier = True\<rparr>)]"
  by (simp add: pointSource_def exampleConfig_def exampleData_def iterGenes_def upt_rec)


lemma keyOf_examples:
  "keyOf 1 10 ([97], [Some 4, Some 4, Some 4], g) = [Num 0, Num 0, Num 0]"
  "keyOf 1 10 ([97], [Some 20, Some 20, Some 0], g) = [Num 20, Num 20, Num 0]"
  "keyOf 1 10 ([97], [Some 1, None, None], g) = [Num 0, NaN, NaN]"
  by (simp_all add: keyOf_def getChunkCentroid_def trim_def elemAt_def scaleCoordinate_def)



lemma calculateChunks_active_set:
  "set (snd (calculateChunks cfg data posX posY posZ d r))
     = {K \<in> keyOf (cfgScale cfg) d ` set (pointSource cfg data).
          inSight K posX posY posZ ((r + 1 / 2) * d)}"
  by (simp add: calculateChunks_fold fold_stepPoint_active)









section \<open>Properties of the chunk geometry loader\<close>

lemma fillBuffers_handles [simp]:
  "fillBuffers cfg hex (c\<lparr>sphereMesh := m\<rparr>) = fillBuffers cfg hex c"
  "fillBuffers cfg hex (c\<lparr>octMesh := m\<rparr>) = fillBuffers cfg hex c"
  by (simp_all add: fillBuffers_def)

lemma loadChunk_fields:
  "\<exists>c'. snd (stateOf (loadChunk cfg hex sc (Some c) state)) = Some c'
      \<and> dataPoints c' = dataPoints c
      \<and> memberCounts c' = memberCounts c
      \<and> outlierCount c' = outlierCount c"
  by (simp add: loadChunk_def Let_def split: sum.splits)

lemma thinInstanceSetBuffers_idem [simp]:
  "thinInstanceSetBuffers d c (thinInstanceSetBuffers d c m) = thinInstanceSetBuffers d c m"
  by (cases m) (simp_all add: thinInstanceSetBuffers_def)

lemma loadChunk_activate_twice:
  "snd (stateOf (loadChunk cfg hex sc' (snd (stateOf (loadChunk cfg hex sc (Some c) True))) True))
     = snd (stateOf (loadChunk cfg hex sc (Some c) True))"
proof (cases "fillBuffers cfg hex c")
  case (Inl e)
  then show ?thesis
    by (simp add: loadChunk_def Let_def)
next
  case (Inr st)
  then show ?thesis
    by (simp add: loadChunk_def Let_def)
qed

lemma loadChunk_outcome_twice:
  "returned (loadChunk cfg hex sc' (snd (stateOf (loadChunk cfg hex sc (Some c) True))) True)
     = returned (loadChunk cfg hex sc (Some c) True)"
proof (cases "fillBuffers cfg hex c")
  case (Inl e)
  then show ?thesis
    by (simp add: loadChunk_def Let_def)
next
  case (Inr st)
  then show ?thesis
    by (simp add: loadChunk_def Let_def)
qed

lemma loadChunk_deactivate:
  "loadChunk cfg hex sc (Some c) False =
     Returned (dispose (octMesh c) (dispose (sphereMesh c) sc),
               Some (c\<lparr>sphereMesh := None, octMesh := None\<rparr>))"
  by (simp add: loadChunk_def)

lemma loadChunk_absent: "loadChunk cfg hex sc None state = Returned (sc, None)"
  by (simp add: loadChunk_def)

text \<open>
  C7. Activating a chunk twice in a row leaves the chunk as one activation leaves it, with
  the same outcome; deactivating a chunk returns with both geometry handles \<open>null\<close>, a
  second deactivation returns with both handles \<open>null\<close> again and calls nothing in the
  engine; disposing a \<open>null\<close> handle calls nothing and is no error.
\<close>

theorem loadChunk_idempotent:
  "snd (stateOf (loadChunk cfg hex sc' (snd (stateOf (loadChunk cfg hex sc (Some c) True))) True))
     = snd (stateOf (loadChunk cfg hex sc (Some c) True))
   \<and> returned (loadChunk cfg hex sc' (snd (stateOf (loadChunk cfg hex sc (Some c) True))) True)
     = returned (loadChunk cfg hex sc (Some c) True)
   \<and> (\<exists>sc1 c1 c2.
         loadChunk cfg hex sc (Some c) False = Returned (sc1, Some c1)
       \<and> sphereMesh c1 = None \<and> octMesh c1 = None
       \<and> loadChunk cfg hex sc1 (Some c1) False = Returned (sc1, Some c2)
       \<and> sphereMesh c2 = None \<and> octMesh c2 = None)
   \<and> dispose None sc = sc"
  by (simp add: loadChunk_activate_twice loadChunk_outcome_twice loadChunk_deactivate dispose_def)

text \<open>
  C10. For every chunk and both values of the state flag, \<open>loadChunk\<close> leaves the point
  sequence (index 0), the per-family member counts (index 1) and the outlier count
  (index 2) of the chunk as they were, whether it returns or throws; only the two
  geometry handles (indices 3 and 4) can differ afterwards.
\<close>

theorem loadChunk_frame:
  "\<exists>c'. snd (stateOf (loadChunk cfg hex sc (Some c) state)) = Some c'
      \<and> dataPoints c' = dataPoints c
      \<and> memberCounts c' = memberCounts c
      \<and> outlierCount c' = outlierCount c
      \<and> c' = c\<lparr>sphereMesh := sphereMesh c', octMesh := octMesh c'\<rparr>"
  using loadChunk_fields [of cfg hex sc c state] by auto


subsection \<open>The instance buffers\<close>


lemma bufset_after:
  assumes "0 \<le> t" and "nat t < length W"
  shows "bufset (A @ W) (int (length A) + t) v = A @ W[nat t := v]"
proof -
  have idx: "nat (int (length A) + t) = length A + nat t"
    using assms(1) by (simp add: nat_add_distrib)
  have "int (length A) + t < int (length (A @ W))"
    using assms by simp
  moreover have "0 \<le> int (length A) + t"
    using assms(1) by simp
  ultimately show ?thesis
    by (simp only: bufset_def idx if_True list_update_append) simp
qed

lemma bufset_after0:
  "0 < length W \<Longrightarrow> bufset (A @ W) (int (length A)) v = A @ W[0 := v]"
  using bufset_after [of 0 W A v] by simp

lemma fill_slot:
  "fillThinInstanceBuffers
      (A @ replicate 16 (Num 0) @ R) (int (length A))
      (B @ replicate 4 (Num 0) @ S) (int (length B)) d xyz col
     = (A @ instanceSlot d xyz @ R, B @ colorSlot col @ S)"
proof -
  have z16: "replicate 16 (Num 0) = [Num 0, Num 0, Num 0, Num 0, Num 0, Num 0, Num 0, Num 0,
      Num 0, Num 0, Num 0, Num 0, Num 0, Num 0, Num 0, Num 0]"
    by (simp add: numeral_eq_Suc)
  have z4: "replicate 4 (Num 0) = [Num 0, Num 0, Num 0, Num 0]"
    by (simp add: numeral_eq_Suc)
  show ?thesis
    unfolding z16 z4
    by (cases col) (simp add: fillThinInstanceBuffers_def bufset_after bufset_after0 instanceSlot_def eval_nat_numeral)
qed

lemma replicate_room:
  "k < N \<Longrightarrow> replicate (c * (N - k)) x = replicate c x @ replicate (c * (N - Suc k)) x"
proof -
  assume "k < N"
  then have "c * (N - k) = c + c * (N - Suc k)"
    by (metis Suc_diff_Suc mult_Suc_right)
  then show ?thesis
    by (simp add: replicate_add)
qed


lemma length_instanceSlot [simp]: "length (instanceSlot d xyz) = 16"
  by (simp add: instanceSlot_def)

lemma length_colorSlot [simp]: "length (colorSlot c) = 4"
  by (cases c) simp

lemma length_slots:
  "length (concat (map (\<lambda>e. instanceSlot (g e) (h e)) xs)) = 16 * length xs"
  by (induction xs) simp_all

lemma length_colors:
  "length (concat (map (\<lambda>e. colorSlot (g e)) xs)) = 4 * length xs"
  by (induction xs) simp_all

lemma category_counts:
  "length (normalPoints xs) + length (outlierPoints xs) = length xs"
  unfolding normalPoints_def outlierPoints_def
  using sum_length_filter_compl [of "\<lambda>e. is_outlier (metaData (snd e))" xs] by simp

lemma filter_take_le: "length (filter P (take n xs)) \<le> length (filter P xs)"
proof -
  have "filter P xs = filter P (take n xs) @ filter P (drop n xs)"
    by (metis append_take_drop_id filter_append)
  then show ?thesis by simp
qed

lemma fill_slot_at:
  assumes "length A = 16 * j" and "length B = 4 * j" and "j < N"
  shows "fillThinInstanceBuffers
      (A @ replicate (16 * (N - j)) (Num 0)) (int j * 16)
      (B @ replicate (4 * (N - j)) (Num 0)) (int j * 4) d xyz col
     = (A @ instanceSlot d xyz @ replicate (16 * (N - Suc j)) (Num 0),
        B @ colorSlot col @ replicate (4 * (N - Suc j)) (Num 0))"
proof -
  have a: "int j * 16 = int (length A)" and b: "int j * 4 = int (length B)"
    using assms(1,2) by simp_all
  show ?thesis
    unfolding a b replicate_room [OF assms(3)]
    by (rule fill_slot)
qed

lemma fillPoint_step:
  assumes k: "k < length T" and pts: "map snd T = points" and fam: "fst (T ! k) = f"
    and roomN: "length (normalPoints T) \<le> N" and roomM: "length (outlierPoints T) \<le> M"
    and idx: "k = familyIndex + i"
  shows "fillPoint cfg points f (familyColorOf cfg hex f) (outlierColorOf cfg hex f) familyIndex i
           (fillResult cfg hex N M (take k T))
         = Inr (fillResult cfg hex N M (take (Suc k) T))"
proof -
  let ?done = "take k T"
  obtain p where elem: "T ! k = (f, p)"
    using fam by (cases "T ! k") simp
  have next_done: "take (Suc k) T = ?done @ [(f, p)]"
    using k elem by (simp add: take_Suc_conv_app_nth)
  have len: "familyIndex + i < length points"
    using k pts idx by auto
  have "points ! k = snd (T ! k)"
    using k pts nth_map [of k T snd] by simp
  then have pk: "points ! (familyIndex + i) = p"
    using elem idx by simp
  have total: "length (normalPoints ?done) + length (outlierPoints ?done) = k"
    using category_counts [of ?done] k by simp
  show ?thesis
  proof (cases "is_outlier (metaData p)")
    case True
    have "length (outlierPoints (take (Suc k) T)) \<le> length (outlierPoints T)"
      unfolding outlierPoints_def by (rule filter_take_le)
    then have room: "length (outlierPoints ?done) < M"
      using roomM True by (simp add: next_done outlierPoints_def)
    have out: "outlierPoints (take (Suc k) T) = outlierPoints ?done @ [(f, p)]"
      and nor: "normalPoints (take (Suc k) T) = normalPoints ?done"
      using True by (simp_all add: next_done outlierPoints_def normalPoints_def)
    show ?thesis
      unfolding fillPoint_def Let_def
      using True len pk
      by (simp add: fillResult_def out nor
            fill_slot_at [OF length_slots length_colors room] outlierDiameterOf_def)
  next
    case False
    have "length (normalPoints (take (Suc k) T)) \<le> length (normalPoints T)"
      unfolding normalPoints_def by (rule filter_take_le)
    then have room: "length (normalPoints ?done) < N"
      using roomN False by (simp add: next_done normalPoints_def)
    have out: "outlierPoints (take (Suc k) T) = outlierPoints ?done"
      and nor: "normalPoints (take (Suc k) T) = normalPoints ?done @ [(f, p)]"
      using False by (simp_all add: next_done outlierPoints_def normalPoints_def)
    have pos: "int (familyIndex + i) - int (length (outlierPoints ?done)) = int (length (normalPoints ?done))"
      using total idx by simp
    show ?thesis
      unfolding fillPoint_def Let_def
      using False len pk pos
      by (simp add: fillResult_def out nor
            fill_slot_at [OF length_slots length_colors room] diameterOf_def)
  qed
qed


lemma forIndices_append:
  "forIndices body (xs @ ys) st =
     (case forIndices body xs st of Inl e \<Rightarrow> Inl e | Inr s \<Rightarrow> forIndices body ys s)"
  by (induction xs arbitrary: st) (simp_all split: sum.splits)

lemma fill_family:
  assumes pts: "map snd T = points"
    and roomN: "length (normalPoints T) \<le> N" and roomM: "length (outlierPoints T) \<le> M"
  shows "fi + n \<le> length T \<Longrightarrow> (\<forall>i<n. fst (T ! (fi + i)) = f) \<Longrightarrow>
     forIndices (fillPoint cfg points f (familyColorOf cfg hex f) (outlierColorOf cfg hex f) fi)
        [0..<n] (fillResult cfg hex N M (take fi T))
       = Inr (fillResult cfg hex N M (take (fi + n) T))"
proof (induction n)
  case 0
  show ?case by simp
next
  case (Suc n)
  have prev: "forIndices (fillPoint cfg points f (familyColorOf cfg hex f) (outlierColorOf cfg hex f) fi)
        [0..<n] (fillResult cfg hex N M (take fi T))
       = Inr (fillResult cfg hex N M (take (fi + n) T))"
    using Suc by simp
  have step: "fillPoint cfg points f (familyColorOf cfg hex f) (outlierColorOf cfg hex f) fi n
           (fillResult cfg hex N M (take (fi + n) T))
         = Inr (fillResult cfg hex N M (take (Suc (fi + n)) T))"
    using Suc.prems by (intro fillPoint_step [OF _ pts _ roomN roomM]) simp_all
  show ?case
    by (simp add: forIndices_append prev step)
qed

lemma length_familySequence: "length (familySequence mc) = sum_list (map snd mc)"
  by (induction mc) (simp_all add: familySequence_def)

lemma fill_entries:
  assumes roomN: "length (normalPoints (zip fams points)) \<le> N"
    and roomM: "length (outlierPoints (zip fams points)) \<le> M"
    and len: "length fams = length points"
  shows "fams = pre @ familySequence mc \<Longrightarrow> length pre = fi \<Longrightarrow>
     fillEntries cfg hex points mc fi (fillResult cfg hex N M (take fi (zip fams points)))
       = Inr (fillResult cfg hex N M (zip fams points))"
proof (induction mc arbitrary: pre fi)
  case Nil
  then have "fi = length (zip fams points)"
    using len by (simp add: familySequence_def)
  then show ?case by simp
next
  case (Cons e rest)
  obtain f n where e: "e = (f, n)" by (cases e)
  let ?T = "zip fams points"
  have fams: "fams = pre @ replicate n f @ familySequence rest"
    using Cons.prems(1) e by (simp add: familySequence_def)
  have pts: "map snd ?T = points"
    using len by (simp add: map_snd_zip)
  have bound: "fi + n \<le> length ?T"
    using fams len Cons.prems(2) by simp
  have fam: "\<forall>i<n. fst (?T ! (fi + i)) = f"
  proof (intro allI impI)
    fix i assume "i < n"
    then have "fi + i < length ?T" using bound by simp
    then have "fst (?T ! (fi + i)) = fams ! (fi + i)" by simp
    also have "\<dots> = f"
      using \<open>i < n\<close> Cons.prems(2) by (simp add: fams nth_append)
    finally show "fst (?T ! (fi + i)) = f" .
  qed
  have family: "forIndices (fillPoint cfg points f (familyColorOf cfg hex f) (outlierColorOf cfg hex f) fi)
        [0..<n] (fillResult cfg hex N M (take fi ?T))
       = Inr (fillResult cfg hex N M (take (fi + n) ?T))"
    using pts roomN roomM bound fam by (rule fill_family)
  have rest: "fillEntries cfg hex points rest (fi + n) (fillResult cfg hex N M (take (fi + n) ?T))
       = Inr (fillResult cfg hex N M ?T)"
    using Cons.IH [of "pre @ replicate n f" "fi + n"] fams Cons.prems(2) by simp
  have unfold: "fillEntries cfg hex points ((f, n) # rest) fi st =
      (case forIndices (fillPoint cfg points f (familyColorOf cfg hex f) (outlierColorOf cfg hex f) fi)
              [0..<n] st of
         Inl err \<Rightarrow> Inl err
       | Inr st' \<Rightarrow> fillEntries cfg hex points rest (fi + n) st')" for st
    unfolding outlierColorOf_def familyColorOf_def by (simp add: Let_def)
  show ?case
    unfolding e unfold family by (simp add: rest)
qed

lemma outliers_zip:
  "length fams = length points \<Longrightarrow>
     length (outlierPoints (zip fams points)) = length (filter (\<lambda>p. is_outlier (metaData p)) points)"
proof -
  assume len: "length fams = length points"
  have "length (filter (\<lambda>p. is_outlier (metaData p)) (map snd (zip fams points)))
      = length (outlierPoints (zip fams points))"
    by (simp add: outlierPoints_def filter_map o_def)
  with len show ?thesis by (simp add: map_snd_zip)
qed

lemma fillBuffers_wellformed:
  assumes sum: "sum_list (map snd (memberCounts c)) = length (dataPoints c)"
    and out: "outlierCount c = length (filter (\<lambda>p. is_outlier (metaData p)) (dataPoints c))"
  shows "fillBuffers cfg hex c
     = Inr (fillResult cfg hex
              (length (normalPoints (zip (familySequence (memberCounts c)) (dataPoints c))))
              (length (outlierPoints (zip (familySequence (memberCounts c)) (dataPoints c))))
              (zip (familySequence (memberCounts c)) (dataPoints c)))"
proof -
  let ?T = "zip (familySequence (memberCounts c)) (dataPoints c)"
  have len: "length (familySequence (memberCounts c)) = length (dataPoints c)"
    using sum by (simp add: length_familySequence)
  have M: "length (outlierPoints ?T) = outlierCount c"
    using out outliers_zip [OF len] by simp
  have "length (normalPoints ?T) + length (outlierPoints ?T) = length (dataPoints c)"
    using category_counts [of ?T] len by simp
  then have N: "nat (int (length (dataPoints c)) - int (outlierCount c)) = length (normalPoints ?T)"
    using M by simp
  have start: "allocateBuffers (length (normalPoints ?T)) (length (outlierPoints ?T))
      = fillResult cfg hex (length (normalPoints ?T)) (length (outlierPoints ?T)) (take 0 ?T)"
    by (simp add: allocateBuffers_def fillResult_def normalPoints_def outlierPoints_def)
  have "fillEntries cfg hex (dataPoints c) (memberCounts c) 0
          (fillResult cfg hex (length (normalPoints ?T)) (length (outlierPoints ?T)) (take 0 ?T))
      = Inr (fillResult cfg hex (length (normalPoints ?T)) (length (outlierPoints ?T)) ?T)"
    by (rule fill_entries [where pre = "[]"]) (simp_all add: len)
  moreover have "fillBuffers cfg hex c = fillEntries cfg hex (dataPoints c) (memberCounts c) 0
      (allocateBuffers (length (normalPoints ?T)) (length (outlierPoints ?T)))"
    by (simp add: fillBuffers_def N M)
  ultimately show ?thesis
    by (simp only: start)
qed

lemma attributed_points:
  assumes "wellFormed c"
  shows "map snd (normalPoints (attributed c)) = filter (\<lambda>p. \<not> is_outlier (metaData p)) (dataPoints c)"
    and "map snd (outlierPoints (attributed c)) = filter (\<lambda>p. is_outlier (metaData p)) (dataPoints c)"
proof -
  have len: "length (familySequence (memberCounts c)) = length (dataPoints c)"
    using assms by (simp add: wellFormed_def length_familySequence)
  have "map snd (filter (\<lambda>e. P (snd e)) (attributed c)) = filter P (map snd (attributed c))" for P
    by (simp add: filter_map o_def)
  moreover have "map snd (attributed c) = dataPoints c"
    using len by (simp add: attributed_def map_snd_zip)
  ultimately show "map snd (normalPoints (attributed c)) = filter (\<lambda>p. \<not> is_outlier (metaData p)) (dataPoints c)"
    and "map snd (outlierPoints (attributed c)) = filter (\<lambda>p. is_outlier (metaData p)) (dataPoints c)"
    by (simp_all add: normalPoints_def outlierPoints_def)
qed

lemma loadChunk_wellFormed:
  assumes "wellFormed c"
  shows "loadChunk cfg hex sc (Some c) True =
     Returned
       (dispose (octMesh c) (dispose (sphereMesh c) sc)
          @ (if normalPoints (attributed c) = [] then [] else [CreateSphere])
          @ (if outlierPoints (attributed c) = [] then [] else [CreatePolyhedron]),
        Some (c\<lparr>sphereMesh :=
                 (if normalPoints (attributed c) = []
                  then thinInstanceSetBuffers [] [] (sphereMesh c)
                  else Some \<lparr>meshShape = Sphere,
                         matrixData = Some (concat (map (\<lambda>e. instanceSlot (diameterOf cfg (fst e)) (coordinates (snd e)))
                                                     (normalPoints (attributed c)))),
                         colorData = Some (concat (map (\<lambda>e. colorSlot (familyColorOf cfg hex (fst e)))
                                                    (normalPoints (attributed c))))\<rparr>),
               octMesh :=
                 (if outlierPoints (attributed c) = []
                  then thinInstanceSetBuffers [] [] (octMesh c)
                  else Some \<lparr>meshShape = Polyhedron,
                         matrixData = Some (concat (map (\<lambda>e. instanceSlot (outlierDiameterOf cfg (fst e)) (coordinates (snd e)))
                                                     (outlierPoints (attributed c)))),
                         colorData = Some (concat (map (\<lambda>e. colorSlot (outlierColorOf cfg hex (fst e)))
                                                    (outlierPoints (attributed c))))\<rparr>)\<rparr>))"
proof -
  let ?T = "attributed c"
  have sum: "sum_list (map snd (memberCounts c)) = length (dataPoints c)"
    and out: "outlierCount c = length (filter (\<lambda>p. is_outlier (metaData p)) (dataPoints c))"
    using assms by (simp_all add: wellFormed_def)
  have fill: "fillBuffers cfg hex c
      = Inr (fillResult cfg hex (length (normalPoints ?T)) (length (outlierPoints ?T)) ?T)"
    unfolding attributed_def using sum out by (rule fillBuffers_wellformed)
  have M: "outlierCount c = length (outlierPoints ?T)"
    using attributed_points(2) [OF assms] out by (metis length_map)
  have "length (normalPoints ?T) + length (outlierPoints ?T) = length (dataPoints c)"
    using category_counts [of ?T] sum by (simp add: attributed_def length_familySequence)
  then have N: "int (length (dataPoints c)) - int (outlierCount c) = int (length (normalPoints ?T))"
    using M by simp
  show ?thesis
    unfolding loadChunk_def Let_def option.case if_True N fill sum.case
    by (simp add: M fillResult_def thinInstanceSetBuffers_def newMesh_def)
qed





section \<open>Properties of the streaming controller\<close>

lemma offsetsFrom_rec:
  assumes "0 < d"
  shows "offsetsFrom d L b = (if b \<le> L then b # offsetsFrom d L (b + d) else [])"
proof (cases "b \<le> L")
  case True
  then have "0 \<le> (L - b) / d" using assms by simp
  then have nonneg: "0 \<le> \<lfloor>(L - b) / d\<rfloor>" by simp
  have "(L - (b + d)) / d = (L - b) / d - 1"
    using assms by (simp add: field_simps)
  then have shift: "\<lfloor>(L - (b + d)) / d\<rfloor> = \<lfloor>(L - b) / d\<rfloor> - 1"
    by simp
  have "nat (x + 1) = Suc (nat (x - 1 + 1))" if "0 \<le> x" for x :: int
    using that by arith
  from this [OF nonneg] have count: "nat (\<lfloor>(L - b) / d\<rfloor> + 1) = Suc (nat (\<lfloor>(L - (b + d)) / d\<rfloor> + 1))"
    unfolding shift .
  have "map (\<lambda>n. b + of_nat n * d) [0..<Suc m] = b # map (\<lambda>n. (b + d) + of_nat n * d) [0..<m]" for m
    by (simp add: upt_conv_Cons map_Suc_upt [symmetric] algebra_simps del: upt_Suc)
  with True show ?thesis
    by (simp add: offsetsFrom_def count del: upt_Suc)
next
  case False
  then have "(L - b) / d < 0" using assms by (simp add: field_simps)
  then have "\<lfloor>(L - b) / d\<rfloor> < 0" by (simp add: floor_less_iff)
  then have "nat (\<lfloor>(L - b) / d\<rfloor> + 1) = 0" by arith
  then show ?thesis
    using False by (simp only: offsetsFrom_def) simp
qed

lemma loadAt_params:
  "chunkDiameter (stateOf (loadAt cfg hex K s st)) = chunkDiameter st"
  "lastChunkDist (stateOf (loadAt cfg hex K s st)) = lastChunkDist st"
  "chunkCentroid (stateOf (loadAt cfg hex K s st)) = chunkCentroid st"
  "activeChunks (stateOf (loadAt cfg hex K s st)) = activeChunks st"
  "triggeredChunkCentroid (stateOf (loadAt cfg hex K s st)) = triggeredChunkCentroid st"
  by (simp_all add: loadAt_def storeChunk_def split: outcome.splits)

lemma sweepStep_params:
  assumes "sweepStep cfg hex i cur dir axis b st = Returned s"
  shows "chunkDiameter s = chunkDiameter st \<and> lastChunkDist s = lastChunkDist st
       \<and> chunkCentroid s = chunkCentroid st"
proof -
  let ?t2 = "((triggeredChunkCentroid st)[(i + 2) mod 3 := jadd (elemAt (chunkCentroid st) ((i + 2) mod 3)) (Num b)])
               [i := jadd cur (Num (dir * lastChunkDist st))]"
  let ?st1 = "st\<lparr>triggeredChunkCentroid := ?t2\<rparr>"
  obtain s1 where s1: "loadAt cfg hex ?t2 True ?st1 = Returned s1"
    using assms by (auto simp: sweepStep_def Let_def split: outcome.splits)
  let ?t3 = "?t2[i := jsub axis (Num (dir * lastChunkDist st))]"
  let ?st2 = "s1\<lparr>activeChunks := activeChunks s1 @ [?t2], triggeredChunkCentroid := ?t3\<rparr>"
  obtain s3 where s3: "loadAt cfg hex ?t3 False ?st2 = Returned s3"
    and s: "s = s3\<lparr>activeChunks := remove1 ?t3 (activeChunks s3)\<rparr>"
    using assms s1 by (auto simp: sweepStep_def Let_def split: outcome.splits)
  have "chunkDiameter s1 = chunkDiameter st \<and> lastChunkDist s1 = lastChunkDist st \<and> chunkCentroid s1 = chunkCentroid st"
    using loadAt_params [of cfg hex ?t2 True ?st1] s1 by simp
  moreover have "chunkDiameter s3 = chunkDiameter s1 \<and> lastChunkDist s3 = lastChunkDist s1 \<and> chunkCentroid s3 = chunkCentroid s1"
    using loadAt_params [of cfg hex ?t3 False ?st2] s3 by simp
  ultimately show ?thesis
    using s by simp
qed

lemma bLoop_offsets:
  "0 < chunkDiameter st \<Longrightarrow>
     bLoop cfg hex i cur dir axis b st =
       Some (forOffsets (sweepStep cfg hex i cur dir axis)
               (offsetsFrom (chunkDiameter st) (lastChunkDist st) b) st)"
proof (induction "length (offsetsFrom (chunkDiameter st) (lastChunkDist st) b)" arbitrary: b st)
  case 0
  then have "\<not> b \<le> lastChunkDist st"
    using offsetsFrom_rec [of "chunkDiameter st" "lastChunkDist st" b] by (auto split: if_splits)
  then show ?case
    using 0 offsetsFrom_rec [of "chunkDiameter st" "lastChunkDist st" b]
    by (subst bLoop.simps) simp
next
  case (Suc n)
  have le: "b \<le> lastChunkDist st"
    using Suc.hyps(2) Suc.prems offsetsFrom_rec [of "chunkDiameter st" "lastChunkDist st" b]
    by (auto split: if_splits)
  have offs: "offsetsFrom (chunkDiameter st) (lastChunkDist st) b
      = b # offsetsFrom (chunkDiameter st) (lastChunkDist st) (b + chunkDiameter st)"
    using le Suc.prems offsetsFrom_rec [of "chunkDiameter st" "lastChunkDist st" b] by simp
  show ?case
  proof (cases "sweepStep cfg hex i cur dir axis b st")
    case (Threw e s)
    then show ?thesis
      using le offs by (subst bLoop.simps) simp
  next
    case (Returned s)
    have par: "chunkDiameter s = chunkDiameter st" "lastChunkDist s = lastChunkDist st"
      using sweepStep_params [OF Returned] by simp_all
    have "n = length (offsetsFrom (chunkDiameter s) (lastChunkDist s) (b + chunkDiameter s))"
      using Suc.hyps(2) offs par by simp
    then have "bLoop cfg hex i cur dir axis (b + chunkDiameter s) s =
       Some (forOffsets (sweepStep cfg hex i cur dir axis)
               (offsetsFrom (chunkDiameter s) (lastChunkDist s) (b + chunkDiameter s)) s)"
      using Suc.prems par by (intro Suc.hyps(1)) simp_all
    then show ?thesis
      using le offs Returned par by (subst bLoop.simps) simp
  qed
qed

lemma forOffsets_sweep_params:
  "forOffsets (sweepStep cfg hex i cur dir axis) bs st = Returned s \<Longrightarrow>
     chunkDiameter s = chunkDiameter st \<and> lastChunkDist s = lastChunkDist st
       \<and> chunkCentroid s = chunkCentroid st"
proof (induction bs arbitrary: st)
  case Nil
  then show ?case by simp
next
  case (Cons b bs)
  then obtain s1 where s1: "sweepStep cfg hex i cur dir axis b st = Returned s1"
    and rest: "forOffsets (sweepStep cfg hex i cur dir axis) bs s1 = Returned s"
    by (auto split: outcome.splits)
  show ?case
    using sweepStep_params [OF s1] Cons.IH [OF rest] by simp
qed

lemma aBody_params:
  "aBody cfg hex i cur dir axis a st = Returned s \<Longrightarrow>
     chunkDiameter s = chunkDiameter st \<and> lastChunkDist s = lastChunkDist st
       \<and> chunkCentroid s = chunkCentroid st"
  unfolding aBody_def by (drule forOffsets_sweep_params) simp

lemma aLoop_offsets:
  "0 < chunkDiameter st \<Longrightarrow>
     aLoop cfg hex i cur dir axis a st =
       Some (forOffsets (aBody cfg hex i cur dir axis)
               (offsetsFrom (chunkDiameter st) (lastChunkDist st) a) st)"
proof (induction "length (offsetsFrom (chunkDiameter st) (lastChunkDist st) a)" arbitrary: a st)
  case 0
  then have "\<not> a \<le> lastChunkDist st"
    using offsetsFrom_rec [of "chunkDiameter st" "lastChunkDist st" a] by (auto split: if_splits)
  then show ?case
    using 0 offsetsFrom_rec [of "chunkDiameter st" "lastChunkDist st" a]
    by (subst aLoop.simps) simp
next
  case (Suc n)
  have le: "a \<le> lastChunkDist st"
    using Suc.hyps(2) Suc.prems offsetsFrom_rec [of "chunkDiameter st" "lastChunkDist st" a]
    by (auto split: if_splits)
  have offs: "offsetsFrom (chunkDiameter st) (lastChunkDist st) a
      = a # offsetsFrom (chunkDiameter st) (lastChunkDist st) (a + chunkDiameter st)"
    using le Suc.prems offsetsFrom_rec [of "chunkDiameter st" "lastChunkDist st" a] by simp
  let ?st1 = "st\<lparr>triggeredChunkCentroid :=
             (triggeredChunkCentroid st)
               [(i + 1) mod 3 := jadd (elemAt (chunkCentroid st) ((i + 1) mod 3)) (Num a)]\<rparr>"
  have inner: "bLoop cfg hex i cur dir axis (- lastChunkDist ?st1) ?st1
      = Some (aBody cfg hex i cur dir axis a st)"
    using Suc.prems by (simp add: bLoop_offsets aBody_def shellOffsets_def)
  show ?case
  proof (cases "aBody cfg hex i cur dir axis a st")
    case (Threw e s)
    then show ?thesis
      using le offs inner by (subst aLoop.simps) (simp add: Let_def)
  next
    case (Returned s)
    have par: "chunkDiameter s = chunkDiameter st" "lastChunkDist s = lastChunkDist st"
      using aBody_params [OF Returned] by simp_all
    have "n = length (offsetsFrom (chunkDiameter s) (lastChunkDist s) (a + chunkDiameter s))"
      using Suc.hyps(2) offs par by simp
    then have "aLoop cfg hex i cur dir axis (a + chunkDiameter s) s =
       Some (forOffsets (aBody cfg hex i cur dir axis)
               (offsetsFrom (chunkDiameter s) (lastChunkDist s) (a + chunkDiameter s)) s)"
      using Suc.prems par by (intro Suc.hyps(1)) simp_all
    then show ?thesis
      using le offs Returned par inner by (subst aLoop.simps) (simp add: Let_def)
  qed
qed

lemma offsetsFrom_bounds:
  "0 < d \<Longrightarrow> x \<in> set (offsetsFrom d L b) \<Longrightarrow> b \<le> x \<and> x \<le> L"
proof -
  assume d: "0 < d" and "x \<in> set (offsetsFrom d L b)"
  then obtain n where n: "n < nat (\<lfloor>(L - b) / d\<rfloor> + 1)" and x: "x = b + of_nat n * d"
    by (auto simp: offsetsFrom_def)
  from n have "int n \<le> \<lfloor>(L - b) / d\<rfloor>" by arith
  then have "of_int (int n) \<le> (L - b) / d"
    by (simp only: le_floor_iff)
  then have "of_nat n * d \<le> L - b"
    using d by (simp add: field_simps)
  then show ?thesis
    using d x by simp
qed

lemma wellFormed_handles [simp]:
  "wellFormed (c\<lparr>sphereMesh := m\<rparr>) = wellFormed c"
  "wellFormed (c\<lparr>octMesh := m\<rparr>) = wellFormed c"
  by (simp_all add: wellFormed_def)

lemma loadChunk_scene_free:
  "snd (stateOf (loadChunk cfg hex sc X s)) = snd (stateOf (loadChunk cfg hex [] X s))"
  by (simp add: loadChunk_def Let_def split: option.splits sum.splits)

lemma loadChunk_keeps_wellFormed:
  "snd (stateOf (loadChunk cfg hex sc (Some c) s)) = Some c' \<Longrightarrow> wellFormed c' = wellFormed c"
  using loadChunk_fields [of cfg hex sc c s] by (auto simp: wellFormed_def)

lemma loadChunk_returns:
  "wellFormed c \<Longrightarrow> returned (loadChunk cfg hex sc (Some c) s)"
  by (cases s) (simp_all add: loadChunk_wellFormed loadChunk_deactivate)

lemma switchOn_wellFormed: "wellFormedMap m \<Longrightarrow> wellFormedMap (switchOn cfg hex K m)"
  unfolding wellFormedMap_def switchOn_def
  by (auto split: option.splits simp: loadChunk_keeps_wellFormed)

lemma switchOff_wellFormed: "wellFormedMap m \<Longrightarrow> wellFormedMap (switchOff K m)"
  unfolding wellFormedMap_def switchOff_def
  by (auto split: option.splits)

lemma loadAt_on:
  assumes "wellFormedMap (chunks st)"
  shows "\<exists>sc. loadAt cfg hex K True st = Returned (st\<lparr>scene := sc, chunks := switchOn cfg hex K (chunks st)\<rparr>)"
proof (cases "chunks st K")
  case None
  then show ?thesis
    by (intro exI [of _ "scene st"]) (simp add: loadAt_def loadChunk_absent storeChunk_def switchOn_def)
next
  case (Some c)
  then have wf: "wellFormed c"
    using assms by (simp add: wellFormedMap_def)
  obtain sc c' where r: "loadChunk cfg hex (scene st) (Some c) True = Returned (sc, Some c')"
    using loadChunk_wellFormed [OF wf, of cfg hex "scene st"] by blast
  have "snd (stateOf (loadChunk cfg hex [] (Some c) True)) = Some c'"
    using loadChunk_scene_free [of cfg hex "scene st" "Some c" True] r by simp
  then show ?thesis
    using Some r by (intro exI [of _ sc]) (simp add: loadAt_def storeChunk_def switchOn_def)
qed

lemma loadAt_off:
  "\<exists>sc. loadAt cfg hex K False st = Returned (st\<lparr>scene := sc, chunks := switchOff K (chunks st)\<rparr>)"
proof (cases "chunks st K")
  case None
  then show ?thesis
    by (intro exI [of _ "scene st"]) (simp add: loadAt_def loadChunk_absent storeChunk_def switchOff_def)
next
  case (Some c)
  then show ?thesis
    by (intro exI [of _ "dispose (octMesh c) (dispose (sphereMesh c) (scene st))"])
      (simp add: loadAt_def loadChunk_deactivate storeChunk_def switchOff_def)
qed

lemma sweepStep_effect:
  assumes "wellFormedMap (chunks st)"
  shows "\<exists>sc. sweepStep cfg hex i cur dir axis b st =
     Returned (st\<lparr>scene := sc,
        chunks := switchOff
           ((triggeredChunkCentroid st)
               [(i + 2) mod 3 := jadd (elemAt (chunkCentroid st) ((i + 2) mod 3)) (Num b),
                i := jsub axis (Num (dir * lastChunkDist st))])
           (switchOn cfg hex
              ((triggeredChunkCentroid st)
                 [(i + 2) mod 3 := jadd (elemAt (chunkCentroid st) ((i + 2) mod 3)) (Num b),
                  i := jadd cur (Num (dir * lastChunkDist st))])
              (chunks st)),
        activeChunks := remove1
           ((triggeredChunkCentroid st)
               [(i + 2) mod 3 := jadd (elemAt (chunkCentroid st) ((i + 2) mod 3)) (Num b),
                i := jsub axis (Num (dir * lastChunkDist st))])
           (activeChunks st @
              [(triggeredChunkCentroid st)
                 [(i + 2) mod 3 := jadd (elemAt (chunkCentroid st) ((i + 2) mod 3)) (Num b),
                  i := jadd cur (Num (dir * lastChunkDist st))]]),
        triggeredChunkCentroid :=
           (triggeredChunkCentroid st)
               [(i + 2) mod 3 := jadd (elemAt (chunkCentroid st) ((i + 2) mod 3)) (Num b),
                i := jsub axis (Num (dir * lastChunkDist st))]\<rparr>)"
proof -
  let ?t2 = "(triggeredChunkCentroid st)
                 [(i + 2) mod 3 := jadd (elemAt (chunkCentroid st) ((i + 2) mod 3)) (Num b),
                  i := jadd cur (Num (dir * lastChunkDist st))]"
  let ?t3 = "(triggeredChunkCentroid st)
               [(i + 2) mod 3 := jadd (elemAt (chunkCentroid st) ((i + 2) mod 3)) (Num b),
                i := jsub axis (Num (dir * lastChunkDist st))]"
  have t3: "?t2[i := jsub axis (Num (dir * lastChunkDist st))] = ?t3"
    by simp
  let ?st1 = "st\<lparr>triggeredChunkCentroid := ?t2\<rparr>"
  obtain sc1 where on: "loadAt cfg hex ?t2 True ?st1
      = Returned (?st1\<lparr>scene := sc1, chunks := switchOn cfg hex ?t2 (chunks ?st1)\<rparr>)"
    using loadAt_on [of ?st1 cfg hex ?t2] assms by auto
  let ?s1 = "?st1\<lparr>scene := sc1, chunks := switchOn cfg hex ?t2 (chunks ?st1)\<rparr>"
  let ?st2 = "?s1\<lparr>activeChunks := activeChunks ?s1 @ [?t2], triggeredChunkCentroid := ?t3\<rparr>"
  obtain sc2 where off: "loadAt cfg hex ?t3 False ?st2
      = Returned (?st2\<lparr>scene := sc2, chunks := switchOff ?t3 (chunks ?st2)\<rparr>)"
    using loadAt_off [of cfg hex ?t3 ?st2] by auto
  have "sweepStep cfg hex i cur dir axis b st =
      Returned (?st2\<lparr>scene := sc2, chunks := switchOff ?t3 (chunks ?st2),
                    activeChunks := remove1 ?t3 (activeChunks ?st2)\<rparr>)"
    unfolding sweepStep_def Let_def on outcome.case t3 off
    by simp
  then show ?thesis
    by (intro exI [of _ sc2]) simp
qed

lemma three_cases: "i < 3 \<Longrightarrow> i = 0 \<or> i = 1 \<or> i = (2::nat)"
  by arith

lemma length3: "length t = 3 \<Longrightarrow> \<exists>t0 t1 t2. t = [t0, t1, t2]"
  by (auto simp: length_Suc_conv numeral_3_eq_3)

lemma keyAt_overwrite:
  assumes "length t = 3" and "i < 3"
  shows "t[(i + 2) mod 3 := y, i := z] = keyAt i (elemAt t ((i + 1) mod 3)) y z"
proof -
  obtain t0 t1 t2 where t: "t = [t0, t1, t2]"
    using length3 [OF assms(1)] by blast
  show ?thesis
    using three_cases [OF assms(2)] by (auto simp: t keyAt_def elemAt_def)
qed

lemma keyAt_facts:
  assumes "i < 3"
  shows "length (keyAt i x y z) = 3"
    and "elemAt (keyAt i x y z) ((i + 1) mod 3) = x"
    and "elemAt (keyAt i x y z) i = z"
  using three_cases [OF assms] by (auto simp: keyAt_def elemAt_def)

lemma set_first_axis:
  assumes "length t = 3" and "i < 3"
  shows "length (t[(i + 1) mod 3 := x]) = 3" and "elemAt (t[(i + 1) mod 3 := x]) ((i + 1) mod 3) = x"
proof -
  obtain t0 t1 t2 where t: "t = [t0, t1, t2]"
    using length3 [OF assms(1)] by blast
  show "length (t[(i + 1) mod 3 := x]) = 3" by (simp add: assms(1))
  show "elemAt (t[(i + 1) mod 3 := x]) ((i + 1) mod 3) = x"
    using three_cases [OF assms(2)] by (auto simp: t elemAt_def)
qed

lemma inner_effect:
  assumes i: "i < 3"
  shows "wellFormedMap (chunks st) \<Longrightarrow> length (triggeredChunkCentroid st) = 3 \<Longrightarrow>
    \<exists>st'. forOffsets (sweepStep cfg hex i cur dir axis) bs st = Returned st'
      \<and> (chunks st', activeChunks st') =
          fold (applyPair cfg hex)
            (map (\<lambda>b. (keyAt i (elemAt (triggeredChunkCentroid st) ((i + 1) mod 3))
                           (jadd (elemAt (chunkCentroid st) ((i + 2) mod 3)) (Num b))
                           (jadd cur (Num (dir * lastChunkDist st))),
                       keyAt i (elemAt (triggeredChunkCentroid st) ((i + 1) mod 3))
                           (jadd (elemAt (chunkCentroid st) ((i + 2) mod 3)) (Num b))
                           (jsub axis (Num (dir * lastChunkDist st))))) bs)
            (chunks st, activeChunks st)
      \<and> chunkDiameter st' = chunkDiameter st \<and> lastChunkDist st' = lastChunkDist st
      \<and> chunkCentroid st' = chunkCentroid st
      \<and> length (triggeredChunkCentroid st') = 3
      \<and> wellFormedMap (chunks st')"
proof (induction bs arbitrary: st)
  case Nil
  then show ?case by simp
next
  case (Cons b bs)
  let ?x = "elemAt (triggeredChunkCentroid st) ((i + 1) mod 3)"
  let ?y = "jadd (elemAt (chunkCentroid st) ((i + 2) mod 3)) (Num b)"
  let ?on = "keyAt i ?x ?y (jadd cur (Num (dir * lastChunkDist st)))"
  let ?off = "keyAt i ?x ?y (jsub axis (Num (dir * lastChunkDist st)))"
  obtain sc where step: "sweepStep cfg hex i cur dir axis b st =
     Returned (st\<lparr>scene := sc,
        chunks := switchOff ?off (switchOn cfg hex ?on (chunks st)),
        activeChunks := remove1 ?off (activeChunks st @ [?on]),
        triggeredChunkCentroid := ?off\<rparr>)"
    using sweepStep_effect [OF Cons.prems(1), of cfg hex i cur dir axis b]
    unfolding keyAt_overwrite [OF Cons.prems(2) i] by blast
  let ?s1 = "st\<lparr>scene := sc,
        chunks := switchOff ?off (switchOn cfg hex ?on (chunks st)),
        activeChunks := remove1 ?off (activeChunks st @ [?on]),
        triggeredChunkCentroid := ?off\<rparr>"
  have wf1: "wellFormedMap (chunks ?s1)"
    using Cons.prems(1) by (simp add: switchOn_wellFormed switchOff_wellFormed)
  have len1: "length (triggeredChunkCentroid ?s1) = 3"
    by (simp add: keyAt_facts [OF i])
  have x1: "elemAt (triggeredChunkCentroid ?s1) ((i + 1) mod 3) = ?x"
    using keyAt_facts(2) [OF i] by simp
  obtain st' where rest: "forOffsets (sweepStep cfg hex i cur dir axis) bs ?s1 = Returned st'"
    and eff: "(chunks st', activeChunks st') =
          fold (applyPair cfg hex)
            (map (\<lambda>b. (keyAt i (elemAt (triggeredChunkCentroid ?s1) ((i + 1) mod 3))
                           (jadd (elemAt (chunkCentroid ?s1) ((i + 2) mod 3)) (Num b))
                           (jadd cur (Num (dir * lastChunkDist ?s1))),
                       keyAt i (elemAt (triggeredChunkCentroid ?s1) ((i + 1) mod 3))
                           (jadd (elemAt (chunkCentroid ?s1) ((i + 2) mod 3)) (Num b))
                           (jsub axis (Num (dir * lastChunkDist ?s1))))) bs)
            (chunks ?s1, activeChunks ?s1)"
    and par: "chunkDiameter st' = chunkDiameter ?s1" "lastChunkDist st' = lastChunkDist ?s1"
      "chunkCentroid st' = chunkCentroid ?s1" "length (triggeredChunkCentroid st') = 3"
      "wellFormedMap (chunks st')"
    using Cons.IH [OF wf1 len1] by blast
  have "forOffsets (sweepStep cfg hex i cur dir axis) (b # bs) st = Returned st'"
    using step rest by simp
  moreover have "(chunks st', activeChunks st') =
          fold (applyPair cfg hex)
            (map (\<lambda>b. (keyAt i ?x (jadd (elemAt (chunkCentroid st) ((i + 2) mod 3)) (Num b))
                           (jadd cur (Num (dir * lastChunkDist st))),
                       keyAt i ?x (jadd (elemAt (chunkCentroid st) ((i + 2) mod 3)) (Num b))
                           (jsub axis (Num (dir * lastChunkDist st))))) (b # bs))
            (chunks st, activeChunks st)"
    unfolding eff x1 by (simp add: applyPair_def)
  ultimately show ?case
    using par by simp
qed

lemma aBody_effect:
  assumes i: "i < 3" and wf: "wellFormedMap (chunks st)" and len: "length (triggeredChunkCentroid st) = 3"
  shows "\<exists>st'. aBody cfg hex i cur dir axis a st = Returned st'
      \<and> (chunks st', activeChunks st') =
          fold (applyPair cfg hex)
            (map (\<lambda>b. (shellKey i (chunkCentroid st) (jadd cur (Num (dir * lastChunkDist st))) a b,
                       shellKey i (chunkCentroid st) (jsub axis (Num (dir * lastChunkDist st))) a b))
               (shellOffsets (chunkDiameter st) (lastChunkDist st)))
            (chunks st, activeChunks st)
      \<and> chunkDiameter st' = chunkDiameter st \<and> lastChunkDist st' = lastChunkDist st
      \<and> chunkCentroid st' = chunkCentroid st
      \<and> length (triggeredChunkCentroid st') = 3
      \<and> wellFormedMap (chunks st')"
proof -
  let ?st1 = "st\<lparr>triggeredChunkCentroid :=
             (triggeredChunkCentroid st)
               [(i + 1) mod 3 := jadd (elemAt (chunkCentroid st) ((i + 1) mod 3)) (Num a)]\<rparr>"
  have wf1: "wellFormedMap (chunks ?st1)" using wf by simp
  have len1: "length (triggeredChunkCentroid ?st1) = 3" using len by simp
  have x1: "elemAt (triggeredChunkCentroid ?st1) ((i + 1) mod 3)
      = jadd (elemAt (chunkCentroid st) ((i + 1) mod 3)) (Num a)"
    using set_first_axis(2) [OF len i] by simp
  show ?thesis
    using inner_effect [OF i wf1 len1, of cfg hex cur dir axis "shellOffsets (chunkDiameter st) (lastChunkDist st)"]
    unfolding x1 aBody_def shellKey_def by simp
qed

lemma outer_effect:
  assumes i: "i < 3"
  shows "wellFormedMap (chunks st) \<Longrightarrow> length (triggeredChunkCentroid st) = 3 \<Longrightarrow>
    \<exists>st'. forOffsets (aBody cfg hex i cur dir axis) as st = Returned st'
      \<and> (chunks st', activeChunks st') =
          fold (applyPair cfg hex)
            (concat (map (\<lambda>a. map (\<lambda>b.
                (shellKey i (chunkCentroid st) (jadd cur (Num (dir * lastChunkDist st))) a b,
                 shellKey i (chunkCentroid st) (jsub axis (Num (dir * lastChunkDist st))) a b))
               (shellOffsets (chunkDiameter st) (lastChunkDist st))) as))
            (chunks st, activeChunks st)
      \<and> chunkDiameter st' = chunkDiameter st \<and> lastChunkDist st' = lastChunkDist st
      \<and> chunkCentroid st' = chunkCentroid st
      \<and> length (triggeredChunkCentroid st') = 3
      \<and> wellFormedMap (chunks st')"
proof (induction as arbitrary: st)
  case Nil
  then show ?case by simp
next
  case (Cons a as)
  obtain s1 where first: "aBody cfg hex i cur dir axis a st = Returned s1"
    and eff1: "(chunks s1, activeChunks s1) =
          fold (applyPair cfg hex)
            (map (\<lambda>b. (shellKey i (chunkCentroid st) (jadd cur (Num (dir * lastChunkDist st))) a b,
                       shellKey i (chunkCentroid st) (jsub axis (Num (dir * lastChunkDist st))) a b))
               (shellOffsets (chunkDiameter st) (lastChunkDist st)))
            (chunks st, activeChunks st)"
    and par1: "chunkDiameter s1 = chunkDiameter st" "lastChunkDist s1 = lastChunkDist st"
      "chunkCentroid s1 = chunkCentroid st"
    and inv1: "length (triggeredChunkCentroid s1) = 3" "wellFormedMap (chunks s1)"
    using aBody_effect [OF i Cons.prems, of cfg hex cur dir axis a] by blast
  obtain st' where rest: "forOffsets (aBody cfg hex i cur dir axis) as s1 = Returned st'"
    and eff: "(chunks st', activeChunks st') =
          fold (applyPair cfg hex)
            (concat (map (\<lambda>a. map (\<lambda>b.
                (shellKey i (chunkCentroid s1) (jadd cur (Num (dir * lastChunkDist s1))) a b,
                 shellKey i (chunkCentroid s1) (jsub axis (Num (dir * lastChunkDist s1))) a b))
               (shellOffsets (chunkDiameter s1) (lastChunkDist s1))) as))
            (chunks s1, activeChunks s1)"
    and par: "chunkDiameter st' = chunkDiameter s1" "lastChunkDist st' = lastChunkDist s1"
      "chunkCentroid st' = chunkCentroid s1" "length (triggeredChunkCentroid st') = 3"
      "wellFormedMap (chunks st')"
    using Cons.IH [OF inv1(2) inv1(1)] by blast
  have "forOffsets (aBody cfg hex i cur dir axis) (a # as) st = Returned st'"
    using first rest by simp
  moreover have "(chunks st', activeChunks st') =
          fold (applyPair cfg hex)
            (concat (map (\<lambda>a. map (\<lambda>b.
                (shellKey i (chunkCentroid st) (jadd cur (Num (dir * lastChunkDist st))) a b,
                 shellKey i (chunkCentroid st) (jsub axis (Num (dir * lastChunkDist st))) a b))
               (shellOffsets (chunkDiameter st) (lastChunkDist st))) (a # as)))
            (chunks st, activeChunks st)"
    unfolding eff par1 eff1 by simp
  ultimately show ?case
    using par par1 by simp
qed

lemma axisUpdate_effect:
  assumes d: "0 < chunkDiameter st" and i: "i < 3"
    and wf: "wellFormedMap (chunks st)" and len: "length (triggeredChunkCentroid st) = 3"
    and moved: "\<not> jseq (elemAt cur i) (elemAt (chunkCentroid st) i)"
  shows "\<exists>st'. axisUpdate cfg hex cur i st = Some (Returned st')
      \<and> (chunks st', activeChunks st') =
          fold (applyPair cfg hex)
            (shellPairs i (chunkCentroid st)
               (jadd (elemAt cur i)
                  (Num ((if jless (elemAt (chunkCentroid st) i) (elemAt cur i) then 1 else - 1)
                        * lastChunkDist st)))
               (jsub (elemAt (chunkCentroid st) i)
                  (Num ((if jless (elemAt (chunkCentroid st) i) (elemAt cur i) then 1 else - 1)
                        * lastChunkDist st)))
               (shellOffsets (chunkDiameter st) (lastChunkDist st)))
            (chunks st, activeChunks st)
      \<and> chunkDiameter st' = chunkDiameter st \<and> lastChunkDist st' = lastChunkDist st
      \<and> chunkCentroid st' = chunkCentroid st
      \<and> length (triggeredChunkCentroid st') = 3
      \<and> wellFormedMap (chunks st')"
proof -
  let ?dir = "if jless (elemAt (chunkCentroid st) i) (elemAt cur i) then 1 else - 1 :: rat"
  have "axisUpdate cfg hex cur i st =
      Some (forOffsets (aBody cfg hex i (elemAt cur i) ?dir (elemAt (chunkCentroid st) i))
              (shellOffsets (chunkDiameter st) (lastChunkDist st)) st)"
    using moved d by (simp add: axisUpdate_def Let_def aLoop_offsets shellOffsets_def)
  then show ?thesis
    using outer_effect [OF i wf len, of cfg hex "elemAt cur i" ?dir "elemAt (chunkCentroid st) i"
        "shellOffsets (chunkDiameter st) (lastChunkDist st)"]
    unfolding shellPairs_def by simp
qed

lemma axisUpdate_still:
  "jseq (elemAt cur i) (elemAt (chunkCentroid st) i) \<Longrightarrow> axisUpdate cfg hex cur i st = Some (Returned st)"
  by (simp add: axisUpdate_def Let_def)

lemma activation_Some:
  "\<exists>c'. snd (stateOf (loadChunk cfg hex [] (Some c) True)) = Some c'
      \<and> snd (stateOf (loadChunk cfg hex [] (Some c') True)) = Some c'"
proof -
  obtain c' where c': "snd (stateOf (loadChunk cfg hex [] (Some c) True)) = Some c'"
    using loadChunk_fields [of cfg hex "[]" c True] by blast
  then show ?thesis
    using loadChunk_activate_twice [of cfg hex "[]" "[]" c] by simp
qed

lemma applyPair_chunk:
  assumes "on \<noteq> off"
  shows "fst (applyPair cfg hex (on, off) (m, act)) K =
     (case m K of
        None \<Rightarrow> None
      | Some c \<Rightarrow>
          if K = on then snd (stateOf (loadChunk cfg hex [] (Some c) True))
          else if K = off then Some (c\<lparr>sphereMesh := None, octMesh := None\<rparr>)
          else Some c)"
proof (cases "m on")
  case None
  then show ?thesis
    using assms by (auto simp: applyPair_def switchOn_def switchOff_def split: option.splits)
next
  case (Some c)
  obtain c' where "snd (stateOf (loadChunk cfg hex [] (Some c) True)) = Some c'"
    using activation_Some [of cfg hex c] by blast
  with Some show ?thesis
    using assms by (auto simp: applyPair_def switchOn_def switchOff_def split: option.splits)
qed

lemma fold_applyPair_chunks:
  "fst ` set ps \<inter> snd ` set ps = {} \<Longrightarrow>
     fst (fold (applyPair cfg hex) ps (m, act)) K =
       (case m K of
          None \<Rightarrow> None
        | Some c \<Rightarrow>
            if K \<in> fst ` set ps then snd (stateOf (loadChunk cfg hex [] (Some c) True))
            else if K \<in> snd ` set ps then Some (c\<lparr>sphereMesh := None, octMesh := None\<rparr>)
            else Some c)"
proof (induction ps arbitrary: m act)
  case Nil
  show ?case by (simp split: option.splits)
next
  case (Cons p ps)
  obtain on off where p: "p = (on, off)" by (cases p)
  have ne: "on \<noteq> off" and on_off: "on \<notin> snd ` set ps" and off_on: "off \<notin> fst ` set ps"
    and disj: "fst ` set ps \<inter> snd ` set ps = {}"
    using Cons.prems p by auto
  obtain m1 act1 where st1: "applyPair cfg hex (on, off) (m, act) = (m1, act1)"
    by (cases "applyPair cfg hex (on, off) (m, act)")
  have m1: "m1 K = (case m K of
        None \<Rightarrow> None
      | Some c \<Rightarrow>
          if K = on then snd (stateOf (loadChunk cfg hex [] (Some c) True))
          else if K = off then Some (c\<lparr>sphereMesh := None, octMesh := None\<rparr>)
          else Some c)"
    using applyPair_chunk [OF ne, of cfg hex m act K] st1 by simp
  have IH: "fst (fold (applyPair cfg hex) ps (m1, act1)) K =
       (case m1 K of
          None \<Rightarrow> None
        | Some c \<Rightarrow>
            if K \<in> fst ` set ps then snd (stateOf (loadChunk cfg hex [] (Some c) True))
            else if K \<in> snd ` set ps then Some (c\<lparr>sphereMesh := None, octMesh := None\<rparr>)
            else Some c)"
    using disj by (rule Cons.IH)
  show ?case
  proof (cases "m K")
    case None
    then show ?thesis
      using IH m1 st1 p by simp
  next
    case (Some c)
    obtain c' where c': "snd (stateOf (loadChunk cfg hex [] (Some c) True)) = Some c'"
      and again: "snd (stateOf (loadChunk cfg hex [] (Some c') True)) = Some c'"
      using activation_Some [of cfg hex c] by blast
    show ?thesis
      using IH m1 st1 p Some c' again ne on_off off_on
      by (auto simp: image_iff)
  qed
qed

lemma count_list_remove1:
  "count_list (remove1 x xs) y = (if x = y then count_list xs y - 1 else count_list xs y)"
  by (induction xs) auto

lemma fold_applyPair_count:
  "K \<notin> fst ` set ps \<Longrightarrow>
     count_list (snd (fold (applyPair cfg hex) ps (m, act))) K
       = count_list act K - length (filter (\<lambda>p. snd p = K) ps)"
proof (induction ps arbitrary: m act)
  case Nil
  show ?case by simp
next
  case (Cons p ps)
  obtain on off where p: "p = (on, off)" by (cases p)
  have K: "K \<noteq> on" "K \<notin> fst ` set ps"
    using Cons.prems p by auto
  have "count_list (snd (fold (applyPair cfg hex) (p # ps) (m, act))) K
      = count_list (snd (fold (applyPair cfg hex) ps
          (switchOff off (switchOn cfg hex on m), remove1 off (act @ [on])))) K"
    by (simp add: p applyPair_def)
  also have "\<dots> = count_list (remove1 off (act @ [on])) K - length (filter (\<lambda>p. snd p = K) ps)"
    using K(2) by (rule Cons.IH)
  also have "\<dots> = count_list act K - length (filter (\<lambda>p. snd p = K) (p # ps))"
    using K(1) by (auto simp: p count_list_remove1)
  finally show ?case .
qed

lemma fold_applyPair_pushed:
  "K \<notin> snd ` set ps \<Longrightarrow>
     count_list (snd (fold (applyPair cfg hex) ps (m, act))) K
       = count_list act K + length (filter (\<lambda>p. fst p = K) ps)"
proof (induction ps arbitrary: m act)
  case Nil
  show ?case by simp
next
  case (Cons p ps)
  obtain on off where p: "p = (on, off)" by (cases p)
  have K: "K \<noteq> off" "K \<notin> snd ` set ps"
    using Cons.prems p by auto
  have "count_list (snd (fold (applyPair cfg hex) (p # ps) (m, act))) K
      = count_list (snd (fold (applyPair cfg hex) ps
          (switchOff off (switchOn cfg hex on m), remove1 off (act @ [on])))) K"
    by (simp add: p applyPair_def)
  also have "\<dots> = count_list (remove1 off (act @ [on])) K + length (filter (\<lambda>p. fst p = K) ps)"
    using K(2) by (rule Cons.IH)
  also have "\<dots> = count_list act K + length (filter (\<lambda>p. fst p = K) (p # ps))"
    using K(1) by (auto simp: p count_list_remove1)
  finally show ?case .
qed

lemma fold_applyPair_keeps:
  "K \<notin> snd ` set ps \<Longrightarrow> K \<in> set act \<Longrightarrow> K \<in> set (snd (fold (applyPair cfg hex) ps (m, act)))"
proof (induction ps arbitrary: m act)
  case Nil
  then show ?case by simp
next
  case (Cons p ps)
  obtain on off where p: "p = (on, off)" by (cases p)
  have "K \<noteq> off" "K \<notin> snd ` set ps"
    using Cons.prems(1) p by auto
  moreover from this Cons.prems(2) have "K \<in> set (remove1 off (act @ [on]))"
    by simp
  ultimately show ?case
    using Cons.IH [of "remove1 off (act @ [on])" "switchOff off (switchOn cfg hex on m)"]
    by (simp add: p applyPair_def)
qed

lemma fold_applyPair_Cons:
  "fold (applyPair cfg hex) ((on, off) # ps) (m, act)
     = fold (applyPair cfg hex) ps (switchOff off (switchOn cfg hex on m), remove1 off (act @ [on]))"
  by (simp add: applyPair_def)

lemma fold_applyPair_adds:
  "fst ` set ps \<inter> snd ` set ps = {} \<Longrightarrow> K \<in> fst ` set ps \<Longrightarrow>
     K \<in> set (snd (fold (applyPair cfg hex) ps (m, act)))"
proof (induction ps arbitrary: m act)
  case Nil
  then show ?case by simp
next
  case (Cons p ps)
  obtain on off where p: "p = (on, off)" by (cases p)
  have ne: "on \<noteq> off" and on_off: "on \<notin> snd ` set ps"
    and disj: "fst ` set ps \<inter> snd ` set ps = {}"
    using Cons.prems(1) p by auto
  show ?case
  proof (cases "K \<in> fst ` set ps")
    case True
    show ?thesis
      unfolding p fold_applyPair_Cons using disj True by (rule Cons.IH)
  next
    case False
    then have K: "K = on" using Cons.prems(2) p by auto
    then have "K \<in> set (remove1 off (act @ [on]))" using ne by simp
    with on_off K show ?thesis
      unfolding p fold_applyPair_Cons by (intro fold_applyPair_keeps) simp_all
  qed
qed

lemma shellPairs_faces:
  "map fst (shellPairs i cc on off offs) = shellFace i cc on offs"
  "map snd (shellPairs i cc on off offs) = shellFace i cc off offs"
  by (simp_all add: shellPairs_def shellFace_def map_concat o_def)

lemma shellFace_axis:
  "i < 3 \<Longrightarrow> K \<in> set (shellFace i cc v offs) \<Longrightarrow> elemAt K i = v"
  by (auto simp: shellFace_def shellKey_def keyAt_facts)

lemma count_filter_map: "length (filter (\<lambda>p. f p = K) ps) = count_list (map f ps) K"
  by (induction ps) auto

lemma shell_leading_trailing:
  assumes "cn \<noteq> co" and "0 \<le> L"
  shows "cn + (if co < cn then 1 else - 1) * L \<noteq> co - (if co < cn then 1 else - 1) * (L::rat)"
  using assms by (auto split: if_splits)

lemma axisUpdate_faces:
  fixes st :: plotState and cn co :: rat
  defines "L \<equiv> lastChunkDist st"
    and "offs \<equiv> shellOffsets (chunkDiameter st) (lastChunkDist st)"
    and "dir \<equiv> (if co < cn then 1 else - 1 :: rat)"
  assumes d: "0 < chunkDiameter st" and i: "i < 3"
    and wf: "wellFormedMap (chunks st)" and len: "length (triggeredChunkCentroid st) = 3"
    and cur: "elemAt cur i = Num cn" and old: "elemAt (chunkCentroid st) i = Num co" and ne: "cn \<noteq> co"
  shows "\<exists>st'. axisUpdate cfg hex cur i st = Some (Returned st')
      \<and> (\<forall>K. chunks st' K =
            (case chunks st K of
               None \<Rightarrow> None
             | Some ch \<Rightarrow>
                 if K \<in> set (shellFace i (chunkCentroid st) (Num (cn + dir * L)) offs)
                 then snd (stateOf (loadChunk cfg hex [] (Some ch) True))
                 else if K \<in> set (shellFace i (chunkCentroid st) (Num (co - dir * L)) offs)
                 then Some (ch\<lparr>sphereMesh := None, octMesh := None\<rparr>)
                 else Some ch))
      \<and> set (shellFace i (chunkCentroid st) (Num (cn + dir * L)) offs) \<subseteq> set (activeChunks st')
      \<and> (\<forall>K. K \<notin> set (shellFace i (chunkCentroid st) (Num (cn + dir * L)) offs) \<longrightarrow>
            count_list (activeChunks st') K
              = count_list (activeChunks st) K
                  - count_list (shellFace i (chunkCentroid st) (Num (co - dir * L)) offs) K)
      \<and> (\<forall>K. K \<in> set (shellFace i (chunkCentroid st) (Num (cn + dir * L)) offs) \<longrightarrow>
            count_list (activeChunks st') K
              = count_list (activeChunks st) K
                  + count_list (shellFace i (chunkCentroid st) (Num (cn + dir * L)) offs) K)
      \<and> chunkDiameter st' = chunkDiameter st \<and> lastChunkDist st' = lastChunkDist st
      \<and> chunkCentroid st' = chunkCentroid st
      \<and> length (triggeredChunkCentroid st') = 3
      \<and> wellFormedMap (chunks st')"
proof -
  let ?on = "Num (cn + dir * L)" and ?off = "Num (co - dir * L)"
  let ?ps = "shellPairs i (chunkCentroid st) ?on ?off offs"
  have moved: "\<not> jseq (elemAt cur i) (elemAt (chunkCentroid st) i)"
    using cur old ne by simp
  have dir: "(if jless (elemAt (chunkCentroid st) i) (elemAt cur i) then 1 else - 1) = dir"
    using cur old by (simp add: dir_def)
  obtain st' where run: "axisUpdate cfg hex cur i st = Some (Returned st')"
    and eff: "(chunks st', activeChunks st') = fold (applyPair cfg hex) ?ps (chunks st, activeChunks st)"
    and par: "chunkDiameter st' = chunkDiameter st" "lastChunkDist st' = lastChunkDist st"
      "chunkCentroid st' = chunkCentroid st" "length (triggeredChunkCentroid st') = 3"
      "wellFormedMap (chunks st')"
    using axisUpdate_effect [OF d i wf len moved, of cfg hex]
    unfolding cur old by (auto simp: L_def offs_def dir_def)
  have on_set: "fst ` set ?ps = set (shellFace i (chunkCentroid st) ?on offs)"
    and off_set: "snd ` set ?ps = set (shellFace i (chunkCentroid st) ?off offs)"
    by (simp_all only: set_map [symmetric] shellPairs_faces)
  have disj: "fst ` set ?ps \<inter> snd ` set ?ps = {}"
  proof (cases "offs = []")
    case True
    then show ?thesis by (simp add: shellPairs_def)
  next
    case False
    then obtain x where "x \<in> set offs" by (cases offs) auto
    then have "- L \<le> x \<and> x \<le> L"
      using offsetsFrom_bounds [OF d, of x "lastChunkDist st" "- lastChunkDist st"]
      by (simp add: offs_def shellOffsets_def L_def)
    then have "0 \<le> L" by simp
    then have diff: "?on \<noteq> ?off"
      using shell_leading_trailing [OF ne, of L] by (simp add: dir_def)
    have "K \<in> fst ` set ?ps \<Longrightarrow> K \<in> snd ` set ?ps \<Longrightarrow> False" for K
    proof -
      assume "K \<in> fst ` set ?ps" and "K \<in> snd ` set ?ps"
      then have "K \<in> set (shellFace i (chunkCentroid st) ?on offs)"
        and "K \<in> set (shellFace i (chunkCentroid st) ?off offs)"
        by (simp_all only: on_set off_set)
      then have "elemAt K i = ?on" and "elemAt K i = ?off"
        using shellFace_axis [OF i] by blast+
      with diff show False by simp
    qed
    then show ?thesis by blast
  qed
  have m: "chunks st' = fst (fold (applyPair cfg hex) ?ps (chunks st, activeChunks st))"
    and a: "activeChunks st' = snd (fold (applyPair cfg hex) ?ps (chunks st, activeChunks st))"
    using eff by (metis fst_conv, metis snd_conv)
  note chunk_rule = fold_applyPair_chunks [OF disj, of cfg hex "chunks st" "activeChunks st",
      unfolded on_set off_set, folded m]
  note add_rule = fold_applyPair_adds [OF disj, of _ cfg hex "chunks st" "activeChunks st",
      unfolded on_set, folded a]
  note count_rule = fold_applyPair_count [of _ ?ps cfg hex "chunks st" "activeChunks st",
      unfolded on_set count_filter_map shellPairs_faces, folded a]
  note push_rule = fold_applyPair_pushed [of _ ?ps cfg hex "chunks st" "activeChunks st",
      unfolded off_set count_filter_map shellPairs_faces, folded a]
  show ?thesis
  proof (intro exI [of _ st'] conjI allI impI subsetI)
    show "axisUpdate cfg hex cur i st = Some (Returned st')" by (rule run)
  next
    fix K show "chunks st' K =
            (case chunks st K of
               None \<Rightarrow> None
             | Some ch \<Rightarrow>
                 if K \<in> set (shellFace i (chunkCentroid st) ?on offs)
                 then snd (stateOf (loadChunk cfg hex [] (Some ch) True))
                 else if K \<in> set (shellFace i (chunkCentroid st) ?off offs)
                 then Some (ch\<lparr>sphereMesh := None, octMesh := None\<rparr>)
                 else Some ch)"
      by (rule chunk_rule)
  next
    fix K assume "K \<in> set (shellFace i (chunkCentroid st) ?on offs)"
    then show "K \<in> set (activeChunks st')" by (rule add_rule)
  next
    fix K assume "K \<notin> set (shellFace i (chunkCentroid st) ?on offs)"
    then show "count_list (activeChunks st') K
              = count_list (activeChunks st) K
                  - count_list (shellFace i (chunkCentroid st) ?off offs) K"
      by (rule count_rule)
  next
    fix K assume on: "K \<in> set (shellFace i (chunkCentroid st) ?on offs)"
    then have "K \<notin> set (shellFace i (chunkCentroid st) ?off offs)"
      using disj unfolding on_set off_set by blast
    then show "count_list (activeChunks st') K
              = count_list (activeChunks st) K
                  + count_list (shellFace i (chunkCentroid st) ?on offs) K"
      by (rule push_rule)
  qed (fact par)+
qed

lemma switchOn_other: "K \<noteq> K' \<Longrightarrow> switchOn cfg hex K' m K = m K"
  by (simp add: switchOn_def split: option.splits)

lemma switchOn_None: "(switchOn cfg hex K' m K = None) = (m K = None)"
  by (auto simp: switchOn_def split: option.splits)

lemma fold_switchOn_other:
  "K \<notin> set ks \<Longrightarrow> fold (switchOn cfg hex) ks m K = m K"
  by (induction ks arbitrary: m) (simp_all add: switchOn_other)

lemma fold_switchOn_wellFormed:
  "wellFormedMap m \<Longrightarrow> wellFormedMap (fold (switchOn cfg hex) ks m)"
  by (induction ks arbitrary: m) (simp_all add: switchOn_wellFormed)

lemma switchOn_hit:
  "m K = Some c \<Longrightarrow> switchOn cfg hex K m K = snd (stateOf (loadChunk cfg hex [] (Some c) True))"
  using activation_Some [of cfg hex c] by (auto simp: switchOn_def)

lemma fold_switchOn_hit:
  "K \<in> set ks \<Longrightarrow> m K = Some c \<Longrightarrow>
     fold (switchOn cfg hex) ks m K = snd (stateOf (loadChunk cfg hex [] (Some c) True))"
proof (induction ks arbitrary: m c)
  case Nil
  then show ?case by simp
next
  case (Cons k ks)
  obtain c' where c': "snd (stateOf (loadChunk cfg hex [] (Some c) True)) = Some c'"
    and again: "snd (stateOf (loadChunk cfg hex [] (Some c') True)) = Some c'"
    using activation_Some [of cfg hex c] by blast
  show ?case
  proof (cases "K = k")
    case True
    have now: "switchOn cfg hex k m K = Some c'"
      using True Cons.prems(2) c' by (simp add: switchOn_hit)
    show ?thesis
    proof (cases "K \<in> set ks")
      case True
      then show ?thesis
        using Cons.IH [of "switchOn cfg hex k m" c'] True now again c' by simp
    next
      case False
      then show ?thesis
        using now c' by (simp add: fold_switchOn_other)
    qed
  next
    case False
    then have "K \<in> set ks" using Cons.prems(1) by simp
    moreover have "switchOn cfg hex k m K = Some c"
      using False Cons.prems(2) by (simp add: switchOn_other)
    ultimately show ?thesis
      using Cons.IH [of "switchOn cfg hex k m" c] by simp
  qed
qed

lemma loadActive_effect:
  "wellFormedMap (chunks st) \<Longrightarrow>
     \<exists>sc. loadActive cfg hex ks st =
       Returned (st\<lparr>scene := sc, chunks := fold (switchOn cfg hex) ks (chunks st)\<rparr>)"
proof (induction ks arbitrary: st)
  case Nil
  show ?case by (intro exI [of _ "scene st"]) simp
next
  case (Cons k ks)
  obtain sc1 where first: "loadAt cfg hex k True st
      = Returned (st\<lparr>scene := sc1, chunks := switchOn cfg hex k (chunks st)\<rparr>)"
    using loadAt_on [OF Cons.prems, of cfg hex k] by blast
  let ?s1 = "st\<lparr>scene := sc1, chunks := switchOn cfg hex k (chunks st)\<rparr>"
  have "wellFormedMap (chunks ?s1)"
    using Cons.prems by (simp add: switchOn_wellFormed)
  then obtain sc2 where rest: "loadActive cfg hex ks ?s1 =
       Returned (?s1\<lparr>scene := sc2, chunks := fold (switchOn cfg hex) ks (chunks ?s1)\<rparr>)"
    using Cons.IH by blast
  show ?case
    by (intro exI [of _ sc2]) (simp add: first rest)
qed

lemma wellFormed_extendChunk: "wellFormed (extendChunk scale emptyChunk ps)"
  by (simp add: wellFormed_def extendChunk_def emptyChunk_def sum_fold_countMember filter_map o_def
        pointOf_def)

lemma calculateChunks_chunk:
  "fst (calculateChunks cfg data posX posY posZ d r) K =
     (if filter (\<lambda>s. keyOf (cfgScale cfg) d s = K) (pointSource cfg data) = [] then None
      else Some (extendChunk (cfgScale cfg) emptyChunk
                   (filter (\<lambda>s. keyOf (cfgScale cfg) d s = K) (pointSource cfg data))))"
  by (simp add: calculateChunks_fold fold_stepPoint_chunks)

lemma calculateChunks_wellFormed:
  "wellFormedMap (fst (calculateChunks cfg data posX posY posZ d r))"
  unfolding wellFormedMap_def
  by (auto simp: calculateChunks_chunk wellFormed_extendChunk split: if_splits)

lemma plotData_state:
  "\<exists>st0. plotData cfg hex data posX posY posZ = Returned st0
     \<and> chunks st0 = fold (switchOn cfg hex)
           (snd (calculateChunks cfg data posX posY posZ (cfgChunkDiameter cfg) (cfgChunkLoadRange cfg)))
           (fst (calculateChunks cfg data posX posY posZ (cfgChunkDiameter cfg) (cfgChunkLoadRange cfg)))
     \<and> activeChunks st0
         = snd (calculateChunks cfg data posX posY posZ (cfgChunkDiameter cfg) (cfgChunkLoadRange cfg))
     \<and> chunkDiameter st0 = cfgChunkDiameter cfg
     \<and> chunkLoadRange st0 = cfgChunkLoadRange cfg
     \<and> lastChunkDist st0 = cfgChunkLoadRange cfg * cfgChunkDiameter cfg
     \<and> chunkCentroid st0 = getChunkCentroid [Num posX, Num posY, Num posZ] (cfgChunkDiameter cfg)
     \<and> length (triggeredChunkCentroid st0) = 3
     \<and> wellFormedMap (chunks st0)"
proof -
  let ?built = "calculateChunks cfg data posX posY posZ (cfgChunkDiameter cfg) (cfgChunkLoadRange cfg)"
  let ?st = "\<lparr>chunks = fst ?built, activeChunks = snd ?built,
                 chunkDiameter = cfgChunkDiameter cfg, chunkLoadRange = cfgChunkLoadRange cfg,
                 lastChunkDist = cfgChunkLoadRange cfg * cfgChunkDiameter cfg,
                 chunkCentroid = getChunkCentroid [Num posX, Num posY, Num posZ] (cfgChunkDiameter cfg),
                 triggeredChunkCentroid = [Num 0, Num 0, Num 0],
                 scene = []\<rparr>"
  have wf: "wellFormedMap (chunks ?st)"
    by (simp add: calculateChunks_wellFormed)
  obtain sc where "loadActive cfg hex (snd ?built) ?st =
       Returned (?st\<lparr>scene := sc, chunks := fold (switchOn cfg hex) (snd ?built) (chunks ?st)\<rparr>)"
    using loadActive_effect [OF wf, of cfg hex "snd ?built"] by blast
  then have "plotData cfg hex data posX posY posZ =
       Returned (?st\<lparr>scene := sc, chunks := fold (switchOn cfg hex) (snd ?built) (chunks ?st)\<rparr>)"
    by (simp add: plotData_def Let_def)
  then show ?thesis
    using fold_switchOn_wellFormed [OF wf, of cfg hex "snd ?built"] by simp
qed

lemma shellOffsets_example: "shellOffsets 10 10 = [- 10, 0, 10]"
  by (simp add: shellOffsets_def offsetsFrom_def upt_rec)

lemma shellFace_x:
  "shellFace 0 [Num 0, Num 0, Num 0] v [- 10, 0, 10] =
     [[v, Num (- 10), Num (- 10)], [v, Num (- 10), Num 0], [v, Num (- 10), Num 10],
      [v, Num 0, Num (- 10)], [v, Num 0, Num 0], [v, Num 0, Num 10],
      [v, Num 10, Num (- 10)], [v, Num 10, Num 0], [v, Num 10, Num 10]]"
  by (simp add: shellFace_def shellKey_def keyAt_def elemAt_def)

lemma shellFace_y:
  "shellFace 1 [Num 0, Num 0, Num 0] v [- 10, 0, 10] =
     [[Num (- 10), v, Num (- 10)], [Num 0, v, Num (- 10)], [Num 10, v, Num (- 10)],
      [Num (- 10), v, Num 0], [Num 0, v, Num 0], [Num 10, v, Num 0],
      [Num (- 10), v, Num 10], [Num 0, v, Num 10], [Num 10, v, Num 10]]"
  by (simp add: shellFace_def shellKey_def keyAt_def elemAt_def)

lemma centroid_examples:
  "getChunkCentroid [Num 0, Num 0, Num 0] 10 = [Num 0, Num 0, Num 0]"
  "getChunkCentroid [Num 11, Num 0, Num 0] 10 = [Num 10, Num 0, Num 0]"
  "getChunkCentroid [Num 4, Num 4, Num 0] 10 = [Num 0, Num 0, Num 0]"
  "getChunkCentroid [Num 6, Num 6, Num 0] 10 = [Num 10, Num 10, Num 0]"
  by (simp_all add: getChunkCentroid_def trim_def elemAt_def)

lemma exampleConfig_fields:
  "cfgChunkDiameter exampleConfig = 10" "cfgChunkLoadRange exampleConfig = 1"
  "cfgScale exampleConfig = 1"
  by (simp_all add: exampleConfig_def)

lemma pointSource_shell:
  "pointSource exampleConfig shellData =
     [([97], [Some 0, Some 0, Some 0], \<lparr>gene = [103, 49], is_outlier = False\<rparr>),
      ([97], [Some (- 10), Some 0, Some 0], \<lparr>gene = [103, 50], is_outlier = False\<rparr>),
      ([97], [Some 20, Some 0, Some 0], \<lparr>gene = [103, 51], is_outlier = False\<rparr>)]"
  by (simp add: pointSource_def exampleConfig_def shellData_def iterGenes_def upt_rec)

lemma keyOf_shell:
  "keyOf 1 10 ([97], [Some 0, Some 0, Some 0], g) = [Num 0, Num 0, Num 0]"
  "keyOf 1 10 ([97], [Some (- 10), Some 0, Some 0], g) = [Num (- 10), Num 0, Num 0]"
  "keyOf 1 10 ([97], [Some 20, Some 0, Some 0], g) = [Num 20, Num 0, Num 0]"
  by (simp_all add: keyOf_def getChunkCentroid_def trim_def elemAt_def scaleCoordinate_def)

lemma beforeRender_axes:
  assumes "length (chunkCentroid st) = 3"
    and "axisUpdate cfg hex (getChunkCentroid [Num x, Num y, Num z] (chunkDiameter st)) 0 st = Some (Returned s1)"
    and "axisUpdate cfg hex (getChunkCentroid [Num x, Num y, Num z] (chunkDiameter st)) 1 s1 = Some (Returned s2)"
    and "axisUpdate cfg hex (getChunkCentroid [Num x, Num y, Num z] (chunkDiameter st)) 2 s2 = Some (Returned s3)"
  shows "beforeRender cfg hex x y z st =
     Some (Returned (s3\<lparr>chunkCentroid := getChunkCentroid [Num x, Num y, Num z] (chunkDiameter st)\<rparr>))"
proof -
  have "[0..<length (chunkCentroid st)] = [0, 1, 2]"
    using assms(1) by (simp add: upt_rec)
  then show ?thesis
    using assms(2-4) by (simp add: beforeRender_def Let_def)
qed

lemma fold_switchOn_None: "(fold (switchOn cfg hex) ks m K = None) = (m K = None)"
  by (induction ks arbitrary: m) (simp_all add: switchOn_None)

lemma distinct_count_list:
  "distinct xs \<Longrightarrow> count_list xs x = (if x \<in> set xs then 1 else 0)"
  by (induction xs) auto

lemma shell_active:
  "set (snd (calculateChunks exampleConfig shellData 0 0 0 10 1))
     = {[Num 0, Num 0, Num 0], [Num (- 10), Num 0, Num 0]}"
  "distinct (snd (calculateChunks exampleConfig shellData 0 0 0 10 1))"
proof -
  show "set (snd (calculateChunks exampleConfig shellData 0 0 0 10 1))
     = {[Num 0, Num 0, Num 0], [Num (- 10), Num 0, Num 0]}"
    unfolding calculateChunks_active_set exampleConfig_fields pointSource_shell
    by (auto simp: keyOf_shell inSight_def elemAt_def)
  show "distinct (snd (calculateChunks exampleConfig shellData 0 0 0 10 1))"
    by (simp add: calculateChunks_fold fold_stepPoint_distinct)
qed

lemma shell_chunks:
  "fst (calculateChunks exampleConfig shellData 0 0 0 10 1) [Num 20, Num 0, Num 0]
     = Some (extendChunk 1 emptyChunk
               [([97], [Some 20, Some 0, Some 0], \<lparr>gene = [103, 51], is_outlier = False\<rparr>)])"
  "fst (calculateChunks exampleConfig shellData 0 0 0 10 1) [Num 20, Num 10, Num 10] = None"
  unfolding calculateChunks_chunk exampleConfig_fields pointSource_shell
  by (simp_all add: keyOf_shell)

lemma shellStart_facts:
  "plotData exampleConfig exampleHex shellData 0 0 0 = Returned shellStart"
  "chunkDiameter shellStart = 10" "chunkLoadRange shellStart = 1" "lastChunkDist shellStart = 10"
  "chunkCentroid shellStart = [Num 0, Num 0, Num 0]"
  "length (triggeredChunkCentroid shellStart) = 3"
  "wellFormedMap (chunks shellStart)"
  "set (activeChunks shellStart) = {[Num 0, Num 0, Num 0], [Num (- 10), Num 0, Num 0]}"
  "distinct (activeChunks shellStart)"
  "chunks shellStart [Num 20, Num 0, Num 0]
     = Some (extendChunk 1 emptyChunk
               [([97], [Some 20, Some 0, Some 0], \<lparr>gene = [103, 51], is_outlier = False\<rparr>)])"
  "chunks shellStart [Num 20, Num 10, Num 10] = None"
proof -
  obtain st0 where run: "plotData exampleConfig exampleHex shellData 0 0 0 = Returned st0"
    and m: "chunks st0 = fold (switchOn exampleConfig exampleHex)
           (snd (calculateChunks exampleConfig shellData 0 0 0 10 1))
           (fst (calculateChunks exampleConfig shellData 0 0 0 10 1))"
    and a: "activeChunks st0 = snd (calculateChunks exampleConfig shellData 0 0 0 10 1)"
    and par: "chunkDiameter st0 = 10" "chunkLoadRange st0 = 1" "lastChunkDist st0 = 1 * 10"
      "chunkCentroid st0 = getChunkCentroid [Num 0, Num 0, Num 0] 10"
      "length (triggeredChunkCentroid st0) = 3" "wellFormedMap (chunks st0)"
    using plotData_state [of exampleConfig exampleHex shellData 0 0 0]
    unfolding exampleConfig_fields by blast
  have st0: "shellStart = st0"
    by (simp add: shellStart_def run)
  show "plotData exampleConfig exampleHex shellData 0 0 0 = Returned shellStart"
    by (simp add: st0 run)
  show "chunkDiameter shellStart = 10" "chunkLoadRange shellStart = 1" "lastChunkDist shellStart = 10"
    "chunkCentroid shellStart = [Num 0, Num 0, Num 0]"
    "length (triggeredChunkCentroid shellStart) = 3"
    "wellFormedMap (chunks shellStart)"
    using par by (simp_all add: st0 centroid_examples)
  show "set (activeChunks shellStart) = {[Num 0, Num 0, Num 0], [Num (- 10), Num 0, Num 0]}"
    "distinct (activeChunks shellStart)"
    by (simp_all add: st0 a shell_active)
  have out: "[Num 20, Num 0, Num 0] \<notin> set (snd (calculateChunks exampleConfig shellData 0 0 0 10 1))"
    by (simp add: shell_active)
  show "chunks shellStart [Num 20, Num 0, Num 0]
     = Some (extendChunk 1 emptyChunk
               [([97], [Some 20, Some 0, Some 0], \<lparr>gene = [103, 51], is_outlier = False\<rparr>)])"
    unfolding st0 m fold_switchOn_other [OF out] by (rule shell_chunks)
  show "chunks shellStart [Num 20, Num 10, Num 10] = None"
    unfolding st0 m fold_switchOn_None by (rule shell_chunks)
qed

lemma shell_sweep:
  "\<exists>st1. axisUpdate exampleConfig exampleHex [Num 10, Num 0, Num 0] 0 shellStart = Some (Returned st1)
     \<and> beforeRender exampleConfig exampleHex 11 0 0 shellStart
         = Some (Returned (st1\<lparr>chunkCentroid := [Num 10, Num 0, Num 0]\<rparr>))
     \<and> [Num 20, Num 0, Num 0] \<in> set (activeChunks st1)
     \<and> [Num 20, Num 10, Num 10] \<in> set (activeChunks st1)
     \<and> [Num (- 10), Num 0, Num 0] \<notin> set (activeChunks st1)
     \<and> [Num 0, Num 0, Num 0] \<in> set (activeChunks st1)
     \<and> chunks st1 [Num 20, Num 10, Num 10] = None
     \<and> chunks st1 [Num 20, Num 0, Num 0]
         = snd (stateOf (loadChunk exampleConfig exampleHex []
             (Some (extendChunk 1 emptyChunk
               [([97], [Some 20, Some 0, Some 0], \<lparr>gene = [103, 51], is_outlier = False\<rparr>)])) True))"
proof -
  have pos: "0 < chunkDiameter shellStart" by (simp add: shellStart_facts)
  have cur: "elemAt [Num 10, Num 0, Num 0] 0 = Num 10" by (simp add: elemAt_def)
  have old: "elemAt (chunkCentroid shellStart) 0 = Num 0" by (simp add: shellStart_facts elemAt_def)
  have on: "(10::rat) + (if (0::rat) < 10 then 1 else - 1) * 10 = 20"
    and off: "(0::rat) - (if (0::rat) < 10 then 1 else - 1) * 10 = - 10"
    by simp_all
  obtain st1 where run: "axisUpdate exampleConfig exampleHex [Num 10, Num 0, Num 0] 0 shellStart = Some (Returned st1)"
    and chunks: "\<And>K. chunks st1 K =
       (case chunks shellStart K of
          None \<Rightarrow> None
        | Some ch \<Rightarrow>
            if K \<in> set (shellFace 0 [Num 0, Num 0, Num 0] (Num 20) [- 10, 0, 10])
            then snd (stateOf (loadChunk exampleConfig exampleHex [] (Some ch) True))
            else if K \<in> set (shellFace 0 [Num 0, Num 0, Num 0] (Num (- 10)) [- 10, 0, 10])
            then Some (ch\<lparr>sphereMesh := None, octMesh := None\<rparr>)
            else Some ch)"
    and added: "set (shellFace 0 [Num 0, Num 0, Num 0] (Num 20) [- 10, 0, 10]) \<subseteq> set (activeChunks st1)"
    and counts: "\<And>K. K \<notin> set (shellFace 0 [Num 0, Num 0, Num 0] (Num 20) [- 10, 0, 10]) \<Longrightarrow>
        count_list (activeChunks st1) K = count_list (activeChunks shellStart) K
          - count_list (shellFace 0 [Num 0, Num 0, Num 0] (Num (- 10)) [- 10, 0, 10]) K"
    and centroid: "chunkCentroid st1 = [Num 0, Num 0, Num 0]"
    using axisUpdate_faces [OF pos _ shellStart_facts(7) shellStart_facts(6) cur old,
      of exampleConfig exampleHex]
    unfolding shellStart_facts shellOffsets_example on off by auto
  have still: "axisUpdate exampleConfig exampleHex [Num 10, Num 0, Num 0] 1 st1 = Some (Returned st1)"
    "axisUpdate exampleConfig exampleHex [Num 10, Num 0, Num 0] 2 st1 = Some (Returned st1)"
    by (simp_all add: axisUpdate_still centroid elemAt_def)
  have tick: "beforeRender exampleConfig exampleHex 11 0 0 shellStart
         = Some (Returned (st1\<lparr>chunkCentroid := [Num 10, Num 0, Num 0]\<rparr>))"
  proof -
    have cur_eq: "getChunkCentroid [Num 11, Num 0, Num 0] (chunkDiameter shellStart) = [Num 10, Num 0, Num 0]"
      by (simp add: shellStart_facts centroid_examples)
    have len: "length (chunkCentroid shellStart) = 3"
      by (simp add: shellStart_facts)
    show ?thesis
      by (rule beforeRender_axes [OF len, of exampleConfig exampleHex 11 0 0 st1 st1 st1,
            unfolded cur_eq, OF run still])
  qed
  have c0: "count_list (activeChunks shellStart) [Num (- 10), Num 0, Num 0] = 1"
    and c1: "count_list (activeChunks shellStart) [Num 0, Num 0, Num 0] = 1"
    by (simp_all add: distinct_count_list shellStart_facts)
  have "count_list (activeChunks st1) [Num (- 10), Num 0, Num 0] = 0"
    using counts [of "[Num (- 10), Num 0, Num 0]"] c0 by (simp add: shellFace_x)
  then have gone: "[Num (- 10), Num 0, Num 0] \<notin> set (activeChunks st1)"
    using count_list_0_iff [of "activeChunks st1" "[Num (- 10), Num 0, Num 0]"] by simp
  have "count_list (activeChunks st1) [Num 0, Num 0, Num 0] = 1"
    using counts [of "[Num 0, Num 0, Num 0]"] c1 by (simp add: shellFace_x)
  then have kept: "[Num 0, Num 0, Num 0] \<in> set (activeChunks st1)"
    using count_list_0_iff [of "activeChunks st1" "[Num 0, Num 0, Num 0]"] by simp
  have on1: "[Num 20, Num 0, Num 0] \<in> set (activeChunks st1)"
    and on2: "[Num 20, Num 10, Num 10] \<in> set (activeChunks st1)"
    using added by (simp_all add: shellFace_x)
  have absent: "chunks st1 [Num 20, Num 10, Num 10] = None"
    by (simp add: chunks shellStart_facts)
  have loaded: "chunks st1 [Num 20, Num 0, Num 0]
         = snd (stateOf (loadChunk exampleConfig exampleHex []
             (Some (extendChunk 1 emptyChunk
               [([97], [Some 20, Some 0, Some 0], \<lparr>gene = [103, 51], is_outlier = False\<rparr>)])) True))"
    by (simp add: chunks shellStart_facts shellFace_x)
  from run tick on1 on2 gone kept absent loaded show ?thesis by blast
qed

lemma shell_loaded:
  "\<exists>c. snd (stateOf (loadChunk exampleConfig exampleHex []
             (Some (extendChunk 1 emptyChunk
               [([97], [Some 20, Some 0, Some 0], \<lparr>gene = [103, 51], is_outlier = False\<rparr>)])) True))
        = Some c \<and> sphereMesh c \<noteq> None"
proof -
  let ?c = "extendChunk 1 emptyChunk
               [([97], [Some 20, Some 0, Some 0], \<lparr>gene = [103, 51], is_outlier = False\<rparr>)]"
  have "normalPoints (attributed ?c) \<noteq> []"
    by (simp add: attributed_def extendChunk_def emptyChunk_def familySequence_def pointOf_def
          normalPoints_def)
  then show ?thesis
    using loadChunk_wellFormed [OF wellFormed_extendChunk, where cfg = exampleConfig
        and hex = exampleHex and sc = "[]"]
    by simp
qed

text \<open>
  The tick from \<open>(0, 0, 0)\<close> to \<open>(11, 0, 0)\<close> with diameter 10 and range 1: the chunk at
  changing-axis coordinate 20 is activated, the chunk at \<open>- 10\<close> leaves the active list, and
  the key \<open>(20, 10, 10)\<close>, at which no chunk exists, is added to the active list.
\<close>

theorem beforeRender_shell_at_range:
  "\<exists>st1. plotData exampleConfig exampleHex shellData 0 0 0 = Returned shellStart
     \<and> chunkDiameter shellStart = 10 \<and> chunkLoadRange shellStart = 1
     \<and> chunkCentroid shellStart = [Num 0, Num 0, Num 0]
     \<and> beforeRender exampleConfig exampleHex 11 0 0 shellStart = Some (Returned st1)
     \<and> chunkCentroid st1 = [Num 10, Num 0, Num 0]
     \<and> [Num 20, Num 0, Num 0] \<notin> set (activeChunks shellStart)
     \<and> [Num 20, Num 0, Num 0] \<in> set (activeChunks st1)
     \<and> (\<exists>c. chunks st1 [Num 20, Num 0, Num 0] = Some c \<and> sphereMesh c \<noteq> None)
     \<and> [Num (- 10), Num 0, Num 0] \<in> set (activeChunks shellStart)
     \<and> [Num (- 10), Num 0, Num 0] \<notin> set (activeChunks st1)
     \<and> [Num 20, Num 10, Num 10] \<in> set (activeChunks st1)
     \<and> chunks st1 [Num 20, Num 10, Num 10] = None"
proof -
  obtain s1 where tick: "beforeRender exampleConfig exampleHex 11 0 0 shellStart
         = Some (Returned (s1\<lparr>chunkCentroid := [Num 10, Num 0, Num 0]\<rparr>))"
    and facts: "[Num 20, Num 0, Num 0] \<in> set (activeChunks s1)"
      "[Num 20, Num 10, Num 10] \<in> set (activeChunks s1)"
      "[Num (- 10), Num 0, Num 0] \<notin> set (activeChunks s1)"
      "chunks s1 [Num 20, Num 10, Num 10] = None"
    and loaded: "chunks s1 [Num 20, Num 0, Num 0]
         = snd (stateOf (loadChunk exampleConfig exampleHex []
             (Some (extendChunk 1 emptyChunk
               [([97], [Some 20, Some 0, Some 0], \<lparr>gene = [103, 51], is_outlier = False\<rparr>)])) True))"
    using shell_sweep by blast
  obtain c where c: "chunks s1 [Num 20, Num 0, Num 0] = Some c" "sphereMesh c \<noteq> None"
    using shell_loaded loaded by auto
  show ?thesis
    using c facts
    by (intro exI [of _ "s1\<lparr>chunkCentroid := [Num 10, Num 0, Num 0]\<rparr>"])
      (simp add: shellStart_facts tick)
qed

text \<open>
  C2, amended.  On a tick in which the viewpoint's chunk centroid changes on axis \<open>i\<close> from
  \<open>co\<close> to \<open>cn\<close>, the shell sweep of that axis returns; it runs over the offsets
  \<open>- L, - L + d, \<dots>\<close> up to \<open>L\<close> on the two other axes, measured from the previous centroid,
  where \<open>L\<close> is \<open>lastChunkDist\<close>, which \<open>plotData\<close> sets to
  \<open>chunkLoadRange * chunkDiameter\<close>.  For each combination the chunk whose changing-axis
  coordinate is \<open>cn + direction * L\<close> is activated and its key is pushed onto the active list
  (whether or not a chunk exists at that key, and once for every combination that yields
  it), and the chunk at \<open>co - direction * L\<close> is deactivated and one occurrence of its key
  is removed from the active list if there is one; all other chunks and keys are left as
  they were.
\<close>

theorem axisUpdate_shell:
  fixes st :: plotState and cn co :: rat
  defines "L \<equiv> lastChunkDist st"
    and "offs \<equiv> shellOffsets (chunkDiameter st) (lastChunkDist st)"
    and "dir \<equiv> (if co < cn then 1 else - 1 :: rat)"
  assumes "0 < chunkDiameter st" and "i < 3"
    and "wellFormedMap (chunks st)" and "length (triggeredChunkCentroid st) = 3"
    and "elemAt cur i = Num cn" and "elemAt (chunkCentroid st) i = Num co" and "cn \<noteq> co"
  shows "\<exists>st'. axisUpdate cfg hex cur i st = Some (Returned st')
      \<and> (\<forall>K. chunks st' K =
            (case chunks st K of
               None \<Rightarrow> None
             | Some ch \<Rightarrow>
                 if K \<in> set (shellFace i (chunkCentroid st) (Num (cn + dir * L)) offs)
                 then snd (stateOf (loadChunk cfg hex [] (Some ch) True))
                 else if K \<in> set (shellFace i (chunkCentroid st) (Num (co - dir * L)) offs)
                 then Some (ch\<lparr>sphereMesh := None, octMesh := None\<rparr>)
                 else Some ch))
      \<and> set (shellFace i (chunkCentroid st) (Num (cn + dir * L)) offs) \<subseteq> set (activeChunks st')
      \<and> (\<forall>K. K \<notin> set (shellFace i (chunkCentroid st) (Num (cn + dir * L)) offs) \<longrightarrow>
            count_list (activeChunks st') K
              = count_list (activeChunks st) K
                  - count_list (shellFace i (chunkCentroid st) (Num (co - dir * L)) offs) K)
      \<and> (\<forall>K. K \<in> set (shellFace i (chunkCentroid st) (Num (cn + dir * L)) offs) \<longrightarrow>
            count_list (activeChunks st') K
              = count_list (activeChunks st) K
                  + count_list (shellFace i (chunkCentroid st) (Num (cn + dir * L)) offs) K)
      \<and> chunkCentroid st' = chunkCentroid st
      \<and> chunkDiameter st' = chunkDiameter st \<and> lastChunkDist st' = lastChunkDist st
      \<and> lastChunkDist (stateOf (plotData cfg0 hex0 data posX posY posZ))
          = cfgChunkLoadRange cfg0 * cfgChunkDiameter cfg0"
proof -
  have range: "lastChunkDist (stateOf (plotData cfg0 hex0 data posX posY posZ))
          = cfgChunkLoadRange cfg0 * cfgChunkDiameter cfg0"
    using plotData_state [of cfg0 hex0 data posX posY posZ] by auto
  from axisUpdate_faces [OF assms(4-10), of cfg hex] range show ?thesis
    unfolding L_def offs_def dir_def by blast
qed

text \<open>
  With diameter 10 and range 1, the move of the centroid from \<open>(0, 0, 0)\<close> to
  \<open>(10, 0, 0)\<close> activates the shell at 20 and deactivates the shell at \<open>- 10\<close>.
\<close>

theorem axisUpdate_shell_witness:
  "0 < chunkDiameter shellStart \<and> (0::nat) < 3 \<and> wellFormedMap (chunks shellStart)
   \<and> length (triggeredChunkCentroid shellStart) = 3
   \<and> elemAt [Num 10, Num 0, Num 0] 0 = Num 10 \<and> elemAt (chunkCentroid shellStart) 0 = Num 0
   \<and> (10::rat) \<noteq> 0
   \<and> lastChunkDist shellStart = 10
   \<and> shellOffsets (chunkDiameter shellStart) (lastChunkDist shellStart) = [- 10, 0, 10]
   \<and> (\<exists>st1. axisUpdate exampleConfig exampleHex [Num 10, Num 0, Num 0] 0 shellStart = Some (Returned st1)
        \<and> set [[Num 20, Num (- 10), Num (- 10)], [Num 20, Num (- 10), Num 0], [Num 20, Num (- 10), Num 10],
                 [Num 20, Num 0, Num (- 10)], [Num 20, Num 0, Num 0], [Num 20, Num 0, Num 10],
                 [Num 20, Num 10, Num (- 10)], [Num 20, Num 10, Num 0], [Num 20, Num 10, Num 10]]
              \<subseteq> set (activeChunks st1)
        \<and> chunks st1 [Num 20, Num 0, Num 0]
            = snd (stateOf (loadChunk exampleConfig exampleHex [] (chunks shellStart [Num 20, Num 0, Num 0]) True))
        \<and> count_list (activeChunks st1) [Num 20, Num 0, Num 0]
            = count_list (activeChunks shellStart) [Num 20, Num 0, Num 0] + 1
        \<and> count_list (activeChunks st1) [Num (- 10), Num 0, Num 0]
            = count_list (activeChunks shellStart) [Num (- 10), Num 0, Num 0] - 1
        \<and> count_list (activeChunks st1) [Num 0, Num 0, Num 0]
            = count_list (activeChunks shellStart) [Num 0, Num 0, Num 0]
        \<and> chunks st1 [Num 0, Num 0, Num 0] = chunks shellStart [Num 0, Num 0, Num 0])"
proof -
  have pos: "0 < chunkDiameter shellStart" by (simp add: shellStart_facts)
  have cur: "elemAt [Num 10, Num 0, Num 0] 0 = Num 10" by (simp add: elemAt_def)
  have old: "elemAt (chunkCentroid shellStart) 0 = Num 0" by (simp add: shellStart_facts elemAt_def)
  have ne: "(10::rat) \<noteq> 0" by simp
  have i: "(0::nat) < 3" by simp
  have on: "(10::rat) + (if (0::rat) < 10 then 1 else - 1) * 10 = 20"
    and off: "(0::rat) - (if (0::rat) < 10 then 1 else - 1) * 10 = - 10"
    by simp_all
  have offs: "shellOffsets (chunkDiameter shellStart) (lastChunkDist shellStart) = [- 10, 0, 10]"
    by (simp add: shellStart_facts shellOffsets_example)
  obtain st1 where run: "axisUpdate exampleConfig exampleHex [Num 10, Num 0, Num 0] 0 shellStart = Some (Returned st1)"
    and chunks: "\<And>K. chunks st1 K =
       (case chunks shellStart K of
          None \<Rightarrow> None
        | Some ch \<Rightarrow>
            if K \<in> set (shellFace 0 [Num 0, Num 0, Num 0] (Num 20) [- 10, 0, 10])
            then snd (stateOf (loadChunk exampleConfig exampleHex [] (Some ch) True))
            else if K \<in> set (shellFace 0 [Num 0, Num 0, Num 0] (Num (- 10)) [- 10, 0, 10])
            then Some (ch\<lparr>sphereMesh := None, octMesh := None\<rparr>)
            else Some ch)"
    and added: "set (shellFace 0 [Num 0, Num 0, Num 0] (Num 20) [- 10, 0, 10]) \<subseteq> set (activeChunks st1)"
    and counts: "\<And>K. K \<notin> set (shellFace 0 [Num 0, Num 0, Num 0] (Num 20) [- 10, 0, 10]) \<Longrightarrow>
        count_list (activeChunks st1) K = count_list (activeChunks shellStart) K
          - count_list (shellFace 0 [Num 0, Num 0, Num 0] (Num (- 10)) [- 10, 0, 10]) K"
    and pushed: "\<And>K. K \<in> set (shellFace 0 [Num 0, Num 0, Num 0] (Num 20) [- 10, 0, 10]) \<Longrightarrow>
        count_list (activeChunks st1) K = count_list (activeChunks shellStart) K
          + count_list (shellFace 0 [Num 0, Num 0, Num 0] (Num 20) [- 10, 0, 10]) K"
    using axisUpdate_shell [OF pos i shellStart_facts(7) shellStart_facts(6) cur old ne,
      where cfg = exampleConfig and hex = exampleHex and ?cfg0.0 = exampleConfig
        and ?hex0.0 = exampleHex and data = shellData and posX = 0 and posY = 0 and posZ = 0]
    unfolding shellStart_facts shellOffsets_example on off by auto
  have a: "set [[Num 20, Num (- 10), Num (- 10)], [Num 20, Num (- 10), Num 0], [Num 20, Num (- 10), Num 10],
                 [Num 20, Num 0, Num (- 10)], [Num 20, Num 0, Num 0], [Num 20, Num 0, Num 10],
                 [Num 20, Num 10, Num (- 10)], [Num 20, Num 10, Num 0], [Num 20, Num 10, Num 10]]
              \<subseteq> set (activeChunks st1)"
    using added unfolding shellFace_x .
  have b: "chunks st1 [Num 20, Num 0, Num 0]
            = snd (stateOf (loadChunk exampleConfig exampleHex [] (chunks shellStart [Num 20, Num 0, Num 0]) True))"
    by (simp add: chunks shellStart_facts shellFace_x)
  have b': "count_list (activeChunks st1) [Num 20, Num 0, Num 0]
            = count_list (activeChunks shellStart) [Num 20, Num 0, Num 0] + 1"
    using pushed [of "[Num 20, Num 0, Num 0]"] by (simp add: shellFace_x)
  have c: "count_list (activeChunks st1) [Num (- 10), Num 0, Num 0]
            = count_list (activeChunks shellStart) [Num (- 10), Num 0, Num 0] - 1"
    using counts [of "[Num (- 10), Num 0, Num 0]"] by (simp add: shellFace_x)
  have d: "count_list (activeChunks st1) [Num 0, Num 0, Num 0]
            = count_list (activeChunks shellStart) [Num 0, Num 0, Num 0]"
    using counts [of "[Num 0, Num 0, Num 0]"] by (simp add: shellFace_x)
  have e: "chunks st1 [Num 0, Num 0, Num 0] = chunks shellStart [Num 0, Num 0, Num 0]"
    by (simp add: chunks shellFace_x split: option.splits)
  from run a b b' c d e have "\<exists>st1. axisUpdate exampleConfig exampleHex [Num 10, Num 0, Num 0] 0 shellStart = Some (Returned st1)
        \<and> set [[Num 20, Num (- 10), Num (- 10)], [Num 20, Num (- 10), Num 0], [Num 20, Num (- 10), Num 10],
                 [Num 20, Num 0, Num (- 10)], [Num 20, Num 0, Num 0], [Num 20, Num 0, Num 10],
                 [Num 20, Num 10, Num (- 10)], [Num 20, Num 10, Num 0], [Num 20, Num 10, Num 10]]
              \<subseteq> set (activeChunks st1)
        \<and> chunks st1 [Num 20, Num 0, Num 0]
            = snd (stateOf (loadChunk exampleConfig exampleHex [] (chunks shellStart [Num 20, Num 0, Num 0]) True))
        \<and> count_list (activeChunks st1) [Num 20, Num 0, Num 0]
            = count_list (activeChunks shellStart) [Num 20, Num 0, Num 0] + 1
        \<and> count_list (activeChunks st1) [Num (- 10), Num 0, Num 0]
            = count_list (activeChunks shellStart) [Num (- 10), Num 0, Num 0] - 1
        \<and> count_list (activeChunks st1) [Num 0, Num 0, Num 0]
            = count_list (activeChunks shellStart) [Num 0, Num 0, Num 0]
        \<and> chunks st1 [Num 0, Num 0, Num 0] = chunks shellStart [Num 0, Num 0, Num 0]"
    by blast
  with pos i shellStart_facts(7) shellStart_facts(6) cur old ne shellStart_facts(4) offs
  show ?thesis by blast
qed

lemma diagonal_active:
  "set (snd (calculateChunks exampleConfig exampleData 4 4 0 10 1)) = {[Num 0, Num 0, Num 0]}"
  unfolding calculateChunks_active_set exampleConfig_fields pointSource_example
  by (auto simp: keyOf_examples inSight_def elemAt_def)

lemma diagonal_chunk:
  "fst (calculateChunks exampleConfig exampleData 4 4 0 10 1) [Num 20, Num 20, Num 0]
     = Some (extendChunk 1 emptyChunk
               [([97], [Some 20, Some 20, Some 0], \<lparr>gene = [103, 50], is_outlier = True\<rparr>)])"
  unfolding calculateChunks_chunk exampleConfig_fields pointSource_example
  by (simp add: keyOf_examples)

lemma diagonalStart_facts:
  "plotData exampleConfig exampleHex exampleData 4 4 0 = Returned diagonalStart"
  "chunkDiameter diagonalStart = 10" "chunkLoadRange diagonalStart = 1" "lastChunkDist diagonalStart = 10"
  "chunkCentroid diagonalStart = [Num 0, Num 0, Num 0]"
  "length (triggeredChunkCentroid diagonalStart) = 3"
  "wellFormedMap (chunks diagonalStart)"
  "set (activeChunks diagonalStart) = {[Num 0, Num 0, Num 0]}"
  "chunks diagonalStart [Num 20, Num 20, Num 0]
     = Some (extendChunk 1 emptyChunk
               [([97], [Some 20, Some 20, Some 0], \<lparr>gene = [103, 50], is_outlier = True\<rparr>)])"
proof -
  obtain st0 where run: "plotData exampleConfig exampleHex exampleData 4 4 0 = Returned st0"
    and m: "chunks st0 = fold (switchOn exampleConfig exampleHex)
           (snd (calculateChunks exampleConfig exampleData 4 4 0 10 1))
           (fst (calculateChunks exampleConfig exampleData 4 4 0 10 1))"
    and a: "activeChunks st0 = snd (calculateChunks exampleConfig exampleData 4 4 0 10 1)"
    and par: "chunkDiameter st0 = 10" "chunkLoadRange st0 = 1" "lastChunkDist st0 = 1 * 10"
      "chunkCentroid st0 = getChunkCentroid [Num 4, Num 4, Num 0] 10"
      "length (triggeredChunkCentroid st0) = 3" "wellFormedMap (chunks st0)"
    using plotData_state [of exampleConfig exampleHex exampleData 4 4 0]
    unfolding exampleConfig_fields by blast
  have st0: "diagonalStart = st0"
    by (simp add: diagonalStart_def run)
  show "plotData exampleConfig exampleHex exampleData 4 4 0 = Returned diagonalStart"
    by (simp add: st0 run)
  show "chunkDiameter diagonalStart = 10" "chunkLoadRange diagonalStart = 1"
    "lastChunkDist diagonalStart = 10"
    "chunkCentroid diagonalStart = [Num 0, Num 0, Num 0]"
    "length (triggeredChunkCentroid diagonalStart) = 3"
    "wellFormedMap (chunks diagonalStart)"
    using par by (simp_all add: st0 centroid_examples)
  show "set (activeChunks diagonalStart) = {[Num 0, Num 0, Num 0]}"
    by (simp add: st0 a diagonal_active)
  have out: "[Num 20, Num 20, Num 0] \<notin> set (snd (calculateChunks exampleConfig exampleData 4 4 0 10 1))"
    by (simp add: diagonal_active)
  show "chunks diagonalStart [Num 20, Num 20, Num 0]
     = Some (extendChunk 1 emptyChunk
               [([97], [Some 20, Some 20, Some 0], \<lparr>gene = [103, 50], is_outlier = True\<rparr>)])"
    unfolding st0 m fold_switchOn_other [OF out] by (rule diagonal_chunk)
qed

lemma diagonal_sweeps:
  "\<exists>s2. beforeRender exampleConfig exampleHex 6 6 0 diagonalStart
         = Some (Returned (s2\<lparr>chunkCentroid := [Num 10, Num 10, Num 0]\<rparr>))
     \<and> chunks s2 [Num 20, Num 20, Num 0] = chunks diagonalStart [Num 20, Num 20, Num 0]
     \<and> [Num 20, Num 20, Num 0] \<notin> set (activeChunks s2)
     \<and> chunkDiameter s2 = 10"
proof -
  let ?K = "[Num 20, Num 20, Num 0]"
  let ?cur = "[Num 10, Num 10, Num 0]"
  have on: "(10::rat) + (if (0::rat) < 10 then 1 else - 1) * 10 = 20"
    and off: "(0::rat) - (if (0::rat) < 10 then 1 else - 1) * 10 = - 10"
    by simp_all
  have pos0: "0 < chunkDiameter diagonalStart" by (simp add: diagonalStart_facts)
  have cur0: "elemAt ?cur 0 = Num 10" and cur1: "elemAt ?cur 1 = Num 10"
    by (simp_all add: elemAt_def)
  have old0: "elemAt (chunkCentroid diagonalStart) 0 = Num 0"
    by (simp add: diagonalStart_facts elemAt_def)
  obtain s1 where run1: "axisUpdate exampleConfig exampleHex ?cur 0 diagonalStart = Some (Returned s1)"
    and chunks1: "\<And>K. chunks s1 K =
       (case chunks diagonalStart K of
          None \<Rightarrow> None
        | Some ch \<Rightarrow>
            if K \<in> set (shellFace 0 [Num 0, Num 0, Num 0] (Num 20) [- 10, 0, 10])
            then snd (stateOf (loadChunk exampleConfig exampleHex [] (Some ch) True))
            else if K \<in> set (shellFace 0 [Num 0, Num 0, Num 0] (Num (- 10)) [- 10, 0, 10])
            then Some (ch\<lparr>sphereMesh := None, octMesh := None\<rparr>)
            else Some ch)"
    and counts1: "\<And>K. K \<notin> set (shellFace 0 [Num 0, Num 0, Num 0] (Num 20) [- 10, 0, 10]) \<Longrightarrow>
        count_list (activeChunks s1) K = count_list (activeChunks diagonalStart) K
          - count_list (shellFace 0 [Num 0, Num 0, Num 0] (Num (- 10)) [- 10, 0, 10]) K"
    and par1: "chunkDiameter s1 = 10" "lastChunkDist s1 = 10" "chunkCentroid s1 = [Num 0, Num 0, Num 0]"
      "length (triggeredChunkCentroid s1) = 3" "wellFormedMap (chunks s1)"
    using axisUpdate_faces [OF pos0 _ diagonalStart_facts(7) diagonalStart_facts(6) cur0 old0,
      of exampleConfig exampleHex]
    unfolding diagonalStart_facts shellOffsets_example on off by auto
  have pos1: "0 < chunkDiameter s1" by (simp add: par1)
  have old1: "elemAt (chunkCentroid s1) 1 = Num 0"
    by (simp add: par1 elemAt_def)
  obtain s2 where run2: "axisUpdate exampleConfig exampleHex ?cur 1 s1 = Some (Returned s2)"
    and chunks2: "\<And>K. chunks s2 K =
       (case chunks s1 K of
          None \<Rightarrow> None
        | Some ch \<Rightarrow>
            if K \<in> set (shellFace 1 [Num 0, Num 0, Num 0] (Num 20) [- 10, 0, 10])
            then snd (stateOf (loadChunk exampleConfig exampleHex [] (Some ch) True))
            else if K \<in> set (shellFace 1 [Num 0, Num 0, Num 0] (Num (- 10)) [- 10, 0, 10])
            then Some (ch\<lparr>sphereMesh := None, octMesh := None\<rparr>)
            else Some ch)"
    and counts2: "\<And>K. K \<notin> set (shellFace 1 [Num 0, Num 0, Num 0] (Num 20) [- 10, 0, 10]) \<Longrightarrow>
        count_list (activeChunks s2) K = count_list (activeChunks s1) K
          - count_list (shellFace 1 [Num 0, Num 0, Num 0] (Num (- 10)) [- 10, 0, 10]) K"
    and par2: "chunkDiameter s2 = 10" "chunkCentroid s2 = [Num 0, Num 0, Num 0]"
    using axisUpdate_faces [OF pos1 _ par1(5) par1(4) cur1 old1, of exampleConfig exampleHex]
    unfolding par1 shellOffsets_example on off by auto
  have still: "axisUpdate exampleConfig exampleHex ?cur 2 s2 = Some (Returned s2)"
    by (simp add: axisUpdate_still par2 elemAt_def)
  have cur_eq: "getChunkCentroid [Num 6, Num 6, Num 0] (chunkDiameter diagonalStart) = ?cur"
    by (simp add: diagonalStart_facts centroid_examples)
  have len: "length (chunkCentroid diagonalStart) = 3"
    by (simp add: diagonalStart_facts)
  have tick: "beforeRender exampleConfig exampleHex 6 6 0 diagonalStart
         = Some (Returned (s2\<lparr>chunkCentroid := ?cur\<rparr>))"
    by (rule beforeRender_axes [OF len, of exampleConfig exampleHex 6 6 0 s1 s2 s2,
          unfolded cur_eq, OF run1 run2 still])
  have "count_list (activeChunks diagonalStart) ?K = 0"
    using diagonalStart_facts(8) count_list_0_iff [of "activeChunks diagonalStart" ?K] by simp
  then have "count_list (activeChunks s1) ?K = 0"
    using counts1 [of ?K] by (simp add: shellFace_x)
  moreover have "?K \<notin> set (shellFace 1 [Num 0, Num 0, Num 0] (Num 20) [- 10, 0, 10])"
    unfolding shellFace_y by simp
  ultimately have "count_list (activeChunks s2) ?K = 0"
    using counts2 [of ?K] by simp
  then have missing: "?K \<notin> set (activeChunks s2)"
    using count_list_0_iff [of "activeChunks s2" ?K] by simp
  have "chunks s1 ?K = chunks diagonalStart ?K"
    by (simp add: chunks1 shellFace_x split: option.splits)
  moreover have "chunks s2 ?K = chunks s1 ?K"
    unfolding chunks2 [of ?K] shellFace_y by (simp split: option.splits)
  ultimately have same: "chunks s2 ?K = chunks diagonalStart ?K" by simp
  from tick same missing par2(1) show ?thesis by blast
qed

text \<open>
  C1.  The active chunks after a tick are not the chunks of the map within the sight distance
  of the current centroid.  With diameter 10 and range 1 the sight distance is 15.  The plot is
  built at viewpoint \<open>(4, 4, 0)\<close>, centroid \<open>(0, 0, 0)\<close>, and the viewpoint then moves to
  \<open>(6, 6, 0)\<close>, centroid \<open>(10, 10, 0)\<close>: the centroid changes on two axes in one tick.  The
  chunk at \<open>(20, 20, 0)\<close> exists in the map and is within 15 of the new centroid on all three
  axes, but the tick returns with that chunk's key not in the active list and its meshes
  not created.
\<close>

theorem beforeRender_diagonal_misses_chunk:
  "\<exists>st1 c. plotData exampleConfig exampleHex exampleData 4 4 0 = Returned diagonalStart
     \<and> chunkDiameter diagonalStart = 10 \<and> chunkLoadRange diagonalStart = 1
     \<and> beforeRender exampleConfig exampleHex 6 6 0 diagonalStart = Some (Returned st1)
     \<and> chunkCentroid st1 = [Num 10, Num 10, Num 0]
     \<and> chunks st1 [Num 20, Num 20, Num 0] = Some c
     \<and> sphereMesh c = None \<and> octMesh c = None
     \<and> inSight [Num 20, Num 20, Num 0] 10 10 0 ((1 + 1 / 2) * 10)
     \<and> [Num 20, Num 20, Num 0] \<notin> set (activeChunks st1)"
proof -
  obtain s2 where tick: "beforeRender exampleConfig exampleHex 6 6 0 diagonalStart
         = Some (Returned (s2\<lparr>chunkCentroid := [Num 10, Num 10, Num 0]\<rparr>))"
    and same: "chunks s2 [Num 20, Num 20, Num 0] = chunks diagonalStart [Num 20, Num 20, Num 0]"
    and missing: "[Num 20, Num 20, Num 0] \<notin> set (activeChunks s2)"
    using diagonal_sweeps by blast
  let ?c = "extendChunk 1 emptyChunk
               [([97], [Some 20, Some 20, Some 0], \<lparr>gene = [103, 50], is_outlier = True\<rparr>)]"
  have c: "chunks s2 [Num 20, Num 20, Num 0] = Some ?c"
    by (simp add: same diagonalStart_facts)
  have handles: "sphereMesh ?c = None" "octMesh ?c = None"
    by (simp_all add: extendChunk_def emptyChunk_def)
  have sight: "inSight [Num 20, Num 20, Num 0] 10 10 0 ((1 + 1 / 2) * 10)"
    by (simp add: inSight_def elemAt_def)
  show ?thesis
    using missing sight handles
    by (intro exI [of _ "s2\<lparr>chunkCentroid := [Num 10, Num 10, Num 0]\<rparr>"] exI [of _ ?c])
      (simp add: diagonalStart_facts tick c)
qed

end
